theory Spec2Isabelle
  imports Complex_Main "HOL-Library.Char_ord" "HOL-Library.List_Lexorder" "HOL-Library.Log_Nat"
begin

section \<open>The translation validator (scripts/validate.ts)\<close>

text \<open>
  A shallow embedding of \<^verbatim>\<open>scripts/validate.ts\<close>. The script reads the JSON
  catalogues of the source locale \<^verbatim>\<open>en-US\<close>, flattens them, and compares every other
  locale directory against them. Everything outside the script is an input of the model:
  the file system, \<^verbatim>\<open>JSON.parse\<close>, the directory listing, the environment variable
  \<^verbatim>\<open>GITHUB_ACTIONS\<close> and the ICU parser of \<^verbatim>\<open>@formatjs/icu-messageformat-parser\<close>.
\<close>

subsection \<open>JSON values\<close>

text \<open>
  What \<^verbatim>\<open>JSON.parse\<close> returns. An object is the list of its entries in the order of
  \<^verbatim>\<open>Object.entries\<close>; its keys are distinct (\<open>wf_json\<close>). A number is a double; the
  script only ever tests a number for being zero.
\<close>

datatype json =
    JNull
  | JBool bool
  | JNum rat
  | JStr string
  | JArr "json list"
  | JObj "(string \<times> json) list"

fun wf_json :: "json \<Rightarrow> bool" where
  "wf_json (JArr xs) = list_all wf_json xs"
| "wf_json (JObj kvs) = (distinct (map fst kvs) \<and> list_all (\<lambda>kv. wf_json (snd kv)) kvs)"
| "wf_json _ = True"

text \<open>JavaScript truthiness of a parsed value: \<^verbatim>\<open>!data\<close> is \<open>falsy data\<close>.\<close>

fun falsy :: "json \<Rightarrow> bool" where
  "falsy JNull = True"
| "falsy (JBool b) = (\<not> b)"
| "falsy (JNum n) = (n = 0)"
| "falsy (JStr s) = (s = [])"
| "falsy (JArr _) = False"
| "falsy (JObj _) = False"

subsection \<open>Insertion-ordered maps and sets\<close>

text \<open>
  A JavaScript \<^verbatim>\<open>Map\<close> iterates in insertion order, and \<^verbatim>\<open>set\<close> on a key that is
  present replaces the value where it stands. It is modelled as an association list;
  a \<^verbatim>\<open>Set\<close> as a list that \<open>set_add\<close> keeps free of duplicates.
\<close>

type_synonym ('k, 'v) jsmap = "('k \<times> 'v) list"

fun map_set :: "('k, 'v) jsmap \<Rightarrow> 'k \<Rightarrow> 'v \<Rightarrow> ('k, 'v) jsmap" where
  "map_set [] k v = [(k, v)]"
| "map_set ((k', v') # m) k v = (if k' = k then (k, v) # m else (k', v') # map_set m k v)"

definition map_get :: "('k, 'v) jsmap \<Rightarrow> 'k \<Rightarrow> 'v option" where
  "map_get m k = map_of m k"

definition map_has :: "('k, 'v) jsmap \<Rightarrow> 'k \<Rightarrow> bool" where
  "map_has m k = (k \<in> fst ` set m)"

definition map_keys :: "('k, 'v) jsmap \<Rightarrow> 'k list" where
  "map_keys m = map fst m"

text \<open>\<^verbatim>\<open>for (const [k, v] of src) dst.set(k, v)\<close>\<close>

definition map_set_all :: "('k, 'v) jsmap \<Rightarrow> ('k, 'v) jsmap \<Rightarrow> ('k, 'v) jsmap" where
  "map_set_all src dst = fold (\<lambda>kv r. map_set r (fst kv) (snd kv)) src dst"

definition set_add :: "'a list \<Rightarrow> 'a \<Rightarrow> 'a list" where
  "set_add out x = (if x \<in> set out then out else out @ [x])"

subsection \<open>Numbers as decimal strings\<close>

text \<open>The template \<^verbatim>\<open>`${i}`\<close> of a non-negative integer: its decimal digits.\<close>

definition digit_char :: "nat \<Rightarrow> char" where
  "digit_char d = char_of (48 + d)"

fun show_nat :: "nat \<Rightarrow> string" where
  "show_nat n = (if n < 10 then [digit_char n] else show_nat (n div 10) @ [digit_char (n mod 10)])"

declare show_nat.simps [simp del]

subsection \<open>Flattening\<close>

text \<open>
  \<^verbatim>\<open>flatten(obj, prefix)\<close>, lines 52 to 80. \<open>flatten_items\<close> is the loop over an array
  from index \<open>i\<close> on, \<open>flatten_entries\<close> the loop over \<^verbatim>\<open>Object.entries\<close>; both carry
  \<^verbatim>\<open>result\<close>. \<open>child_path\<close> is \<^verbatim>\<open>prefix ? `${prefix}.${key}` : key\<close>: the empty
  string is the only falsy prefix. The cases \<open>JArr\<close> and \<open>JObj\<close> of a child are
  \<^verbatim>\<open>typeof v === "object" && v !== null\<close>; a number, a boolean or \<^verbatim>\<open>null\<close> is skipped.
\<close>

definition child_path :: "string \<Rightarrow> string \<Rightarrow> string" where
  "child_path prefix seg = (if prefix \<noteq> [] then prefix @ ''.'' @ seg else seg)"

fun flatten :: "json \<Rightarrow> string \<Rightarrow> (string, string) jsmap"
  and flatten_items :: "json list \<Rightarrow> nat \<Rightarrow> string \<Rightarrow> (string, string) jsmap \<Rightarrow> (string, string) jsmap"
  and flatten_entries :: "(string \<times> json) list \<Rightarrow> string \<Rightarrow> (string, string) jsmap \<Rightarrow> (string, string) jsmap"
where
  "flatten (JArr xs) prefix = flatten_items xs 0 prefix []"
| "flatten (JObj kvs) prefix = flatten_entries kvs prefix []"
| "flatten JNull prefix = []"
| "flatten (JBool b) prefix = []"
| "flatten (JNum n) prefix = []"
| "flatten (JStr s) prefix = []"
| "flatten_items [] i prefix result = result"
| "flatten_items (x # xs) i prefix result =
     flatten_items xs (i + 1) prefix
       (case x of
          JStr s \<Rightarrow> map_set result (child_path prefix (show_nat i)) s
        | JArr ys \<Rightarrow> map_set_all (flatten (JArr ys) (child_path prefix (show_nat i))) result
        | JObj kvs \<Rightarrow> map_set_all (flatten (JObj kvs) (child_path prefix (show_nat i))) result
        | _ \<Rightarrow> result)"
| "flatten_entries [] prefix result = result"
| "flatten_entries ((key, val) # kvs) prefix result =
     flatten_entries kvs prefix
       (case val of
          JStr s \<Rightarrow> map_set result (child_path prefix key) s
        | JArr ys \<Rightarrow> map_set_all (flatten (JArr ys) (child_path prefix key)) result
        | JObj kvs' \<Rightarrow> map_set_all (flatten (JObj kvs') (child_path prefix key)) result
        | _ \<Rightarrow> result)"


subsection \<open>String leaves and their positions\<close>

text \<open>
  The string leaves of a document that are reachable through arrays and objects, in the
  order \<open>flatten\<close> visits them. The position of a leaf is the list of property names on
  the way from the root: an object key, or an array index in decimal (in JavaScript an
  index is the property name \<^verbatim>\<open>"0"\<close>, \<^verbatim>\<open>"1"\<close>, ...). \<open>key_path\<close> is the key path that
  \<open>flatten\<close> builds for a position, one \<open>child_path\<close> per level, from the empty prefix.
\<close>

fun leaves :: "json \<Rightarrow> (string list \<times> string) list"
  and leaves_items :: "json list \<Rightarrow> nat \<Rightarrow> (string list \<times> string) list"
  and leaves_entries :: "(string \<times> json) list \<Rightarrow> (string list \<times> string) list"
where
  "leaves (JArr xs) = leaves_items xs 0"
| "leaves (JObj kvs) = leaves_entries kvs"
| "leaves JNull = []"
| "leaves (JBool b) = []"
| "leaves (JNum n) = []"
| "leaves (JStr s) = []"
| "leaves_items [] i = []"
| "leaves_items (x # xs) i =
     (case x of
        JStr s \<Rightarrow> [([show_nat i], s)]
      | JArr ys \<Rightarrow> map (\<lambda>pv. (show_nat i # fst pv, snd pv)) (leaves (JArr ys))
      | JObj kvs \<Rightarrow> map (\<lambda>pv. (show_nat i # fst pv, snd pv)) (leaves (JObj kvs))
      | _ \<Rightarrow> [])
     @ leaves_items xs (i + 1)"
| "leaves_entries [] = []"
| "leaves_entries ((key, val) # kvs) =
     (case val of
        JStr s \<Rightarrow> [([key], s)]
      | JArr ys \<Rightarrow> map (\<lambda>pv. (key # fst pv, snd pv)) (leaves (JArr ys))
      | JObj kvs' \<Rightarrow> map (\<lambda>pv. (key # fst pv, snd pv)) (leaves (JObj kvs'))
      | _ \<Rightarrow> [])
     @ leaves_entries kvs"

definition path_from :: "string \<Rightarrow> string list \<Rightarrow> string" where
  "path_from prefix pos = foldl child_path prefix pos"

definition key_path :: "string list \<Rightarrow> string" where
  "key_path pos = path_from [] pos"

text \<open>A property name that is not empty and holds no separator.\<close>

definition plain_name :: "string \<Rightarrow> bool" where
  "plain_name s = (s \<noteq> [] \<and> CHR ''.'' \<notin> set s)"

fun plain_keys :: "json \<Rightarrow> bool" where
  "plain_keys (JArr xs) = list_all plain_keys xs"
| "plain_keys (JObj kvs) = list_all (\<lambda>kv. plain_name (fst kv) \<and> plain_keys (snd kv)) kvs"
| "plain_keys _ = True"

text \<open>The entries that \<open>flatten\<close> sets for a list of leaves, below a prefix; and the
  tail of a key path after its first property name.\<close>

definition entries_of :: "string \<Rightarrow> (string list \<times> string) list \<Rightarrow> (string \<times> string) list" where
  "entries_of p ls = map (\<lambda>pv. (path_from p (fst pv), snd pv)) ls"

definition dotted :: "string list \<Rightarrow> string" where
  "dotted pos = concat (map (\<lambda>s. ''.'' @ s) pos)"

text \<open>A document in which two leaves are given one key path.\<close>

definition colliding_doc :: json where
  "colliding_doc = JObj [(''a'', JObj [(''b'', JStr ''y'')]), (''a.b'', JStr ''x'')]"

subsection \<open>ICU messages\<close>

text \<open>
  The elements of a parsed message, one constructor per \<^verbatim>\<open>TYPE\<close> of
  \<^verbatim>\<open>@formatjs/icu-messageformat-parser\<close>, with the fields the script reads:
  \<^verbatim>\<open>value\<close>, the \<^verbatim>\<open>options\<close> of a select or plural in the order of
  \<^verbatim>\<open>Object.values\<close>, the \<^verbatim>\<open>children\<close> of a tag. The parser is a library and an input
  of the model: it takes the option \<^verbatim>\<open>ignoreTag\<close> and the message, and returns the
  elements, or the message of the error it throws.
\<close>

datatype element =
    Literal string
  | Argument string
  | Number string
  | Date string
  | Time string
  | Select string "(string \<times> element list) list"
  | Plural string "(string \<times> element list) list"
  | Pound
  | Tag string "element list"

type_synonym icu_parser = "bool \<Rightarrow> string \<Rightarrow> string + element list"

text \<open>\<^verbatim>\<open>collectPlaceholders(nodes, out)\<close>, lines 83 to 105; \<open>collect_options\<close> is its loop
  over the options of a select or plural.\<close>

fun collectPlaceholders :: "element list \<Rightarrow> string list \<Rightarrow> string list"
  and collect_options :: "(string \<times> element list) list \<Rightarrow> string list \<Rightarrow> string list"
where
  "collectPlaceholders [] out = out"
| "collectPlaceholders (node # nodes) out =
     collectPlaceholders nodes
       (case node of
          Argument v \<Rightarrow> set_add out v
        | Number v \<Rightarrow> set_add out v
        | Date v \<Rightarrow> set_add out v
        | Time v \<Rightarrow> set_add out v
        | Select v opts \<Rightarrow> collect_options opts (set_add out v)
        | Plural v opts \<Rightarrow> collect_options opts (set_add out v)
        | Tag v children \<Rightarrow> collectPlaceholders children (set_add out (''<'' @ v @ ''>''))
        | _ \<Rightarrow> out)"
| "collect_options [] out = out"
| "collect_options ((name, els) # opts) out = collect_options opts (collectPlaceholders els out)"

text \<open>The placeholder set of an element as the specification describes it: the names of
  arguments, of the controlling variable of a select or plural, and of tags in angle
  brackets, at any depth.\<close>

fun placeholder_names :: "element \<Rightarrow> string set" where
  "placeholder_names (Literal s) = {}"
| "placeholder_names (Argument v) = {v}"
| "placeholder_names (Number v) = {v}"
| "placeholder_names (Date v) = {v}"
| "placeholder_names (Time v) = {v}"
| "placeholder_names (Select v opts) =
     insert v (\<Union>opt \<in> set opts. \<Union>e \<in> set (snd opt). placeholder_names e)"
| "placeholder_names (Plural v opts) =
     insert v (\<Union>opt \<in> set opts. \<Union>e \<in> set (snd opt). placeholder_names e)"
| "placeholder_names Pound = {}"
| "placeholder_names (Tag v children) =
     insert (''<'' @ v @ ''>'') (\<Union>e \<in> set children. placeholder_names e)"

text \<open>\<^verbatim>\<open>extractPlaceholders\<close> and \<^verbatim>\<open>validateICU\<close>, lines 108 to 126: both call the parser
  with \<^verbatim>\<open>{ ignoreTag: true }\<close>.\<close>

definition extractPlaceholders :: "icu_parser \<Rightarrow> string \<Rightarrow> string list" where
  "extractPlaceholders parse message =
     (case parse True message of Inr nodes \<Rightarrow> collectPlaceholders nodes [] | Inl e \<Rightarrow> [])"

definition validateICU :: "icu_parser \<Rightarrow> string \<Rightarrow> string option" where
  "validateICU parse message = (case parse True message of Inr nodes \<Rightarrow> None | Inl e \<Rightarrow> Some e)"

text \<open>\<^verbatim>\<open>if (err)\<close> on a \<^verbatim>\<open>string | null\<close>: the empty string is falsy too.\<close>

definition truthy :: "string option \<Rightarrow> bool" where
  "truthy e = (case e of None \<Rightarrow> False | Some m \<Rightarrow> m \<noteq> [])"

subsection \<open>Strings\<close>

text \<open>
  A string is modelled by the bytes of its UTF-8 encoding, so that any text of a catalogue
  is a string of the model; the separator \<^verbatim>\<open>.\<close> and the digits are single bytes that
  no other character holds. \<^verbatim>\<open>trim\<close> removes the white space and line terminators of
  ECMAScript from both ends: \<open>white_space\<close> lists their encodings, from U+0009 to U+FEFF,
  and \<open>strip_all\<close> removes them from the front as long as there is one.
\<close>

definition white_space :: "string list" where
  "white_space =
     [[CHR 0x09], [CHR 0x0A], [CHR 0x0B], [CHR 0x0C], [CHR 0x0D], [CHR 0x20],
      [CHR 0xC2, CHR 0xA0], [CHR 0xE1, CHR 0x9A, CHR 0x80],
      [CHR 0xE2, CHR 0x80, CHR 0x80], [CHR 0xE2, CHR 0x80, CHR 0x81],
      [CHR 0xE2, CHR 0x80, CHR 0x82], [CHR 0xE2, CHR 0x80, CHR 0x83],
      [CHR 0xE2, CHR 0x80, CHR 0x84], [CHR 0xE2, CHR 0x80, CHR 0x85],
      [CHR 0xE2, CHR 0x80, CHR 0x86], [CHR 0xE2, CHR 0x80, CHR 0x87],
      [CHR 0xE2, CHR 0x80, CHR 0x88], [CHR 0xE2, CHR 0x80, CHR 0x89],
      [CHR 0xE2, CHR 0x80, CHR 0x8A], [CHR 0xE2, CHR 0x80, CHR 0xA8],
      [CHR 0xE2, CHR 0x80, CHR 0xA9], [CHR 0xE2, CHR 0x80, CHR 0xAF],
      [CHR 0xE2, CHR 0x81, CHR 0x9F], [CHR 0xE3, CHR 0x80, CHR 0x80],
      [CHR 0xEF, CHR 0xBB, CHR 0xBF]]"

function strip_all :: "string list \<Rightarrow> string \<Rightarrow> string" where
  "strip_all seqs s =
     (case find (\<lambda>w. w \<noteq> [] \<and> take (length w) s = w) seqs of
        None \<Rightarrow> s
      | Some w \<Rightarrow> strip_all seqs (drop (length w) s))"
  by pat_completeness auto
termination
proof (relation "measure (\<lambda>(seqs, s). length s)")
  show "wf (measure (\<lambda>(seqs, s). length s))" by simp
next
  fix seqs :: "string list" and s w :: string
  assume "find (\<lambda>w. w \<noteq> [] \<and> take (length w) s = w) seqs = Some w"
  then have "w \<noteq> []" "take (length w) s = w" by (auto simp: find_Some_iff)
  then have "s \<noteq> []" by auto
  with \<open>w \<noteq> []\<close> show "((seqs, drop (length w) s), (seqs, s)) \<in> measure (\<lambda>(seqs, s). length s)"
    by simp
qed

declare strip_all.simps [simp del]

definition trim :: "string \<Rightarrow> string" where
  "trim s = rev (strip_all (map rev white_space) (rev (strip_all white_space s)))"

text \<open>\<^verbatim>\<open>padEnd\<close> and \<^verbatim>\<open>padStart\<close> count code units where the model counts bytes: the
  same for the ASCII text they are applied to, a locale code and a number.\<close>

definition padEnd :: "string \<Rightarrow> nat \<Rightarrow> string" where
  "padEnd s n = s @ replicate (n - length s) CHR '' ''"

definition padStart :: "string \<Rightarrow> nat \<Rightarrow> string" where
  "padStart s n = replicate (n - length s) CHR '' '' @ s"

definition str_repeat :: "string \<Rightarrow> nat \<Rightarrow> string" where
  "str_repeat s n = concat (replicate n s)"

text \<open>\<^verbatim>\<open>s.repeat(n)\<close> throws a RangeError on a negative count: \<open>None\<close>.\<close>

definition js_repeat :: "string \<Rightarrow> int \<Rightarrow> string option" where
  "js_repeat s n = (if n < 0 then None else Some (str_repeat s (nat n)))"

definition show_int :: "int \<Rightarrow> string" where
  "show_int i = (if i < 0 then ''-'' @ show_nat (nat (- i)) else show_nat (nat i))"

definition nl :: string where
  "nl = [CHR 0x0A]"

text \<open>The glyphs U+2588 and U+2591 of the bar.\<close>

definition full_block :: string where
  "full_block = [CHR 0xE2, CHR 0x96, CHR 0x88]"

definition light_shade :: string where
  "light_shade = [CHR 0xE2, CHR 0x96, CHR 0x91]"

subsection \<open>Double arithmetic\<close>

text \<open>
  The numbers of the script are IEEE 754 doubles. The counters are integers, exact below
  \<open>2 ^ 53\<close>, and are modelled as \<open>nat\<close>. The percentage is computed with a division and a
  multiplication of doubles: a double is modelled as the rational it denotes, and an
  operation returns the exact result rounded to 53 significant bits, ties to even
  (\<open>fl\<close>; the exponent range is not bounded, no value of the script comes near its ends).
  \<open>ilog2 q\<close> is the exponent of \<open>q > 0\<close>: \<open>2 powi ilog2 q \<le> q < 2 powi (ilog2 q + 1)\<close>.
  \<^verbatim>\<open>Math.round\<close> is exact: the nearest integer, a tie going up.
\<close>

definition ilog2 :: "rat \<Rightarrow> int" where
  "ilog2 q = (case quotient_of q of (p, d) \<Rightarrow>
     (let e0 = int (floorlog 2 (nat p)) - int (floorlog 2 (nat d))
      in if 2 powi e0 \<le> q then e0 else e0 - 1))"

definition round_even :: "rat \<Rightarrow> int" where
  "round_even x = (let f = \<lfloor>x\<rfloor>; r = x - of_int f
     in if r < 1 / 2 then f else if 1 / 2 < r then f + 1 else if even f then f else f + 1)"

definition fl :: "rat \<Rightarrow> rat" where
  "fl q = (if q = 0 then 0
           else if q < 0
             then - (of_int (round_even (- q / 2 powi (ilog2 (- q) - 52))) * 2 powi (ilog2 (- q) - 52))
           else of_int (round_even (q / 2 powi (ilog2 q - 52))) * 2 powi (ilog2 q - 52))"

definition fdiv :: "rat \<Rightarrow> rat \<Rightarrow> rat" where
  "fdiv a b = fl (a / b)"

definition fmul :: "rat \<Rightarrow> rat \<Rightarrow> rat" where
  "fmul a b = fl (a * b)"

definition js_round :: "rat \<Rightarrow> int" where
  "js_round x = \<lfloor>x + 1 / 2\<rfloor>"

text \<open>Line 314: \<^verbatim>\<open>total > 0 ? Math.round((translated / total) * 100) : 0\<close>.\<close>

definition pct_of :: "nat \<Rightarrow> nat \<Rightarrow> int" where
  "pct_of tot translated =
     (if tot > 0 then js_round (fmul (fdiv (of_nat translated) (of_nat tot)) 100) else 0)"

subsection \<open>The world of a run\<close>

text \<open>
  What a run reads from outside: \<^verbatim>\<open>import.meta.dir\<close>; the text of a file, \<open>None\<close> when
  \<^verbatim>\<open>Bun.file(path).text()\<close> rejects; \<^verbatim>\<open>JSON.parse\<close>, \<open>None\<close> when it throws; the entries
  of a directory with \<^verbatim>\<open>isDirectory()\<close> (the listing of the locales directory is taken
  to succeed: the source files have been read from it before); the ICU parser; and the
  environment variable \<^verbatim>\<open>GITHUB_ACTIONS\<close>.
\<close>

record world =
  meta_dir :: string
  read_text :: "string \<Rightarrow> string option"
  json_parse :: "string \<Rightarrow> json option"
  readdir :: "string \<Rightarrow> (string \<times> bool) list"
  icu_parse :: icu_parser
  github_actions :: "string option"

definition LOCALES_DIR :: "world \<Rightarrow> string" where
  "LOCALES_DIR w = meta_dir w @ ''/../locales''"

definition SOURCE_LOCALE :: string where
  "SOURCE_LOCALE = ''en-US''"

definition NAMESPACES :: "string list" where
  "NAMESPACES = [''game'', ''site'', ''pages'', ''error'', ''faq'']"

text \<open>Line 25: \<^verbatim>\<open>!!process.env.GITHUB_ACTIONS\<close>.\<close>

definition isCI :: "world \<Rightarrow> bool" where
  "isCI w = truthy (github_actions w)"

subsection \<open>Terminal colors and annotations\<close>

definition esc :: string where
  "esc = [CHR 0x1B]"

definition red :: "bool \<Rightarrow> string \<Rightarrow> string" where
  "red ci s = (if ci then s else esc @ ''[31m'' @ s @ esc @ ''[0m'')"

definition yellow :: "bool \<Rightarrow> string \<Rightarrow> string" where
  "yellow ci s = (if ci then s else esc @ ''[33m'' @ s @ esc @ ''[0m'')"

definition green :: "bool \<Rightarrow> string \<Rightarrow> string" where
  "green ci s = (if ci then s else esc @ ''[32m'' @ s @ esc @ ''[0m'')"

definition cyan :: "bool \<Rightarrow> string \<Rightarrow> string" where
  "cyan ci s = (if ci then s else esc @ ''[36m'' @ s @ esc @ ''[0m'')"

definition bold :: "bool \<Rightarrow> string \<Rightarrow> string" where
  "bold ci s = (if ci then s else esc @ ''[1m'' @ s @ esc @ ''[0m'')"

definition dim :: "bool \<Rightarrow> string \<Rightarrow> string" where
  "dim ci s = (if ci then s else esc @ ''[2m'' @ s @ esc @ ''[0m'')"

text \<open>\<^verbatim>\<open>ghAnnotate\<close>, lines 146 to 150: the lines it writes to the standard output.\<close>

definition ghAnnotate :: "bool \<Rightarrow> string \<Rightarrow> string \<Rightarrow> string \<Rightarrow> string list" where
  "ghAnnotate ci level file message =
     (if ci then [''::'' @ level @ '' file='' @ file @ ''::'' @ message] else [])"

subsection \<open>Issues\<close>

text \<open>The interface \<^verbatim>\<open>Issue\<close>, lines 38 to 44; its fields carry the prefix \<open>issue\<close>.\<close>

datatype severity = Error | Warning

record Issue =
  issue_type :: severity
  issue_locale :: string
  issue_namespace :: string
  issue_key :: string
  issue_message :: string

definition is_error :: "Issue \<Rightarrow> bool" where
  "is_error i = (issue_type i = Error)"

definition is_warning :: "Issue \<Rightarrow> bool" where
  "is_warning i = (issue_type i = Warning)"

subsection \<open>Loading\<close>

text \<open>\<^verbatim>\<open>loadJSON\<close>, lines 128 to 135: \<open>None\<close> is the \<^verbatim>\<open>null\<close> of the catch.\<close>

definition loadJSON :: "world \<Rightarrow> string \<Rightarrow> string \<Rightarrow> json option" where
  "loadJSON w loc ns =
     (case read_text w (LOCALES_DIR w @ ''/'' @ loc @ ''/'' @ ns @ ''.json'') of
        None \<Rightarrow> None
      | Some text \<Rightarrow> json_parse w text)"

text \<open>\<^verbatim>\<open>discoverLocales\<close>, lines 137 to 143. \<^verbatim>\<open>sort()\<close> orders strings by their UTF-16
  code units where the model orders their bytes: the same order unless a name holds a
  character outside the Basic Multilingual Plane. No property below depends on the
  order.\<close>

definition discoverLocales :: "world \<Rightarrow> string list" where
  "discoverLocales w =
     sort (map fst (filter (\<lambda>e. snd e \<and> fst e \<noteq> SOURCE_LOCALE) (readdir w (LOCALES_DIR w))))"

subsection \<open>The source locale\<close>

text \<open>Lines 170 to 181: the issues pushed for the flattened source document of a
  namespace.\<close>

definition source_issue :: "world \<Rightarrow> string \<Rightarrow> string \<times> string \<Rightarrow> Issue list" where
  "source_issue w ns kv =
     (case validateICU (icu_parse w) (snd kv) of
        None \<Rightarrow> []
      | Some err \<Rightarrow>
          if err \<noteq> [] then
            [\<lparr>issue_type = Error, issue_locale = SOURCE_LOCALE, issue_namespace = ns,
              issue_key = fst kv, issue_message = ''Invalid ICU in source: '' @ err\<rparr>]
          else [])"

definition source_issues :: "world \<Rightarrow> string \<Rightarrow> (string, string) jsmap \<Rightarrow> Issue list" where
  "source_issues w ns flat = concat (map (source_issue w ns) flat)"

text \<open>
  Lines 161 to 182, the loop over the namespaces, with \<^verbatim>\<open>sourceData\<close> and \<^verbatim>\<open>issues\<close>.
  \<open>Inl\<close> is the fatal exit of line 165: the namespace that could not be loaded, and the
  issues pushed before.
\<close>

fun load_source ::
  "world \<Rightarrow> string list \<Rightarrow> (string, (string, string) jsmap) jsmap \<Rightarrow> Issue list
     \<Rightarrow> (string \<times> Issue list) + ((string, (string, string) jsmap) jsmap \<times> Issue list)"
where
  "load_source w [] sourceData issues = Inr (sourceData, issues)"
| "load_source w (ns # rest) sourceData issues =
     (case loadJSON w SOURCE_LOCALE ns of
        None \<Rightarrow> Inl (ns, issues)
      | Some data \<Rightarrow>
          if falsy data then Inl (ns, issues)
          else load_source w rest (map_set sourceData ns (flatten data []))
                 (issues @ source_issues w ns (flatten data [])))"

subsection \<open>A target locale\<close>

text \<open>
  Each of the following functions returns what its part of the script appends: the issues
  it pushes, the lines \<^verbatim>\<open>ghAnnotate\<close> writes, and its increment of \<^verbatim>\<open>translated\<close>.
\<close>

definition locale_file :: "string \<Rightarrow> string \<Rightarrow> string" where
  "locale_file loc ns = ''locales/'' @ loc @ ''/'' @ ns @ ''.json''"

text \<open>Lines 216 to 227: the keys of the target that the source does not have.\<close>

definition extra_keys ::
  "bool \<Rightarrow> string \<Rightarrow> string \<Rightarrow> (string, string) jsmap \<Rightarrow> (string, string) jsmap
     \<Rightarrow> Issue list \<times> string list"
where
  "extra_keys ci loc ns sourceKeys targetKeys =
     (let extra = filter (\<lambda>key. \<not> map_has sourceKeys key) (map_keys targetKeys)
      in (map (\<lambda>key. \<lparr>issue_type = Error, issue_locale = loc, issue_namespace = ns,
                       issue_key = key, issue_message = ''Extra key not in source (en-US)''\<rparr>) extra,
          concat (map (\<lambda>key. ghAnnotate ci ''error'' (locale_file loc ns) (''Extra key: '' @ key)) extra)))"

text \<open>Lines 272 to 298: the placeholders of one side that the other side lacks.\<close>

definition placeholder_issues ::
  "bool \<Rightarrow> string \<Rightarrow> string \<Rightarrow> string \<Rightarrow> string list \<Rightarrow> string list \<Rightarrow> Issue list \<times> string list"
where
  "placeholder_issues ci loc ns key srcPH tgtPH =
     (let missing = filter (\<lambda>ph. ph \<notin> set tgtPH) srcPH;
          unknown = filter (\<lambda>ph. ph \<notin> set srcPH) tgtPH
      in (map (\<lambda>ph. \<lparr>issue_type = Error, issue_locale = loc, issue_namespace = ns,
                      issue_key = key, issue_message = ''Missing placeholder: '' @ ph\<rparr>) missing
          @ map (\<lambda>ph. \<lparr>issue_type = Error, issue_locale = loc, issue_namespace = ns,
                        issue_key = key, issue_message = ''Unknown placeholder: '' @ ph\<rparr>) unknown,
          concat (map (\<lambda>ph. ghAnnotate ci ''error'' (locale_file loc ns)
                                 (key @ '': missing placeholder '' @ ph)) missing)
          @ concat (map (\<lambda>ph. ghAnnotate ci ''error'' (locale_file loc ns)
                                   (key @ '': unknown placeholder '' @ ph)) unknown)))"

text \<open>Lines 230 to 299: the body of the loop over the source keys.\<close>

definition check_key ::
  "world \<Rightarrow> string \<Rightarrow> string \<Rightarrow> (string, string) jsmap \<Rightarrow> string \<times> string
     \<Rightarrow> Issue list \<times> string list \<times> nat"
where
  "check_key w loc ns targetKeys kv =
     (case map_get targetKeys (fst kv) of
        None \<Rightarrow>
          ([\<lparr>issue_type = Warning, issue_locale = loc, issue_namespace = ns,
             issue_key = fst kv, issue_message = ''Missing translation''\<rparr>], [], 0)
      | Some targetValue \<Rightarrow>
          if trim targetValue = [] then
            ([\<lparr>issue_type = Warning, issue_locale = loc, issue_namespace = ns,
               issue_key = fst kv, issue_message = ''Empty value''\<rparr>], [], 1)
          else
            (case validateICU (icu_parse w) targetValue of
               Some icuErr \<Rightarrow>
                 if icuErr \<noteq> [] then
                   ([\<lparr>issue_type = Error, issue_locale = loc, issue_namespace = ns,
                      issue_key = fst kv, issue_message = ''Invalid ICU: '' @ icuErr\<rparr>],
                    ghAnnotate (isCI w) ''error'' (locale_file loc ns)
                      (fst kv @ '': invalid ICU syntax''), 1)
                 else
                   (case placeholder_issues (isCI w) loc ns (fst kv)
                           (extractPlaceholders (icu_parse w) (snd kv))
                           (extractPlaceholders (icu_parse w) targetValue) of
                      (iss, out) \<Rightarrow> (iss, out, 1))
             | None \<Rightarrow>
                 (case placeholder_issues (isCI w) loc ns (fst kv)
                         (extractPlaceholders (icu_parse w) (snd kv))
                         (extractPlaceholders (icu_parse w) targetValue) of
                    (iss, out) \<Rightarrow> (iss, out, 1))))"

fun check_keys ::
  "world \<Rightarrow> string \<Rightarrow> string \<Rightarrow> (string, string) jsmap \<Rightarrow> (string, string) jsmap
     \<Rightarrow> Issue list \<times> string list \<times> nat"
where
  "check_keys w loc ns targetKeys [] = ([], [], 0)"
| "check_keys w loc ns targetKeys (kv # rest) =
     (case check_key w loc ns targetKeys kv of
        (iss, out, translated) \<Rightarrow>
          (case check_keys w loc ns targetKeys rest of
             (iss', out', translated') \<Rightarrow> (iss @ iss', out @ out', translated + translated')))"

text \<open>Lines 200 to 211: the target document is \<^verbatim>\<open>null\<close> or falsy.\<close>

definition file_failure :: "bool \<Rightarrow> string \<Rightarrow> string \<Rightarrow> Issue list \<times> string list \<times> nat" where
  "file_failure ci loc ns =
     ([\<lparr>issue_type = Error, issue_locale = loc, issue_namespace = ns,
        issue_key = ''*'', issue_message = ''File missing or invalid JSON''\<rparr>],
      ghAnnotate ci ''error'' (locale_file loc ns) ''File missing or invalid JSON'', 0)"

text \<open>Lines 200 to 299: one namespace of one target locale, after \<^verbatim>\<open>total\<close> has been
  increased.\<close>

definition validate_namespace ::
  "world \<Rightarrow> (string, string) jsmap \<Rightarrow> string \<Rightarrow> string \<Rightarrow> Issue list \<times> string list \<times> nat"
where
  "validate_namespace w sourceKeys loc ns =
     (case loadJSON w loc ns of
        None \<Rightarrow> file_failure (isCI w) loc ns
      | Some data \<Rightarrow>
          if falsy data then file_failure (isCI w) loc ns
          else
            (case extra_keys (isCI w) loc ns sourceKeys (flatten data []) of
               (iss, out) \<Rightarrow>
                 (case check_keys w loc ns (flatten data []) sourceKeys of
                    (iss', out', translated) \<Rightarrow> (iss @ iss', out @ out', translated))))"

text \<open>
  Lines 196 to 300, the loop over the namespaces for one locale: the issues, the
  annotations, \<^verbatim>\<open>total\<close> and \<^verbatim>\<open>translated\<close>. \<^verbatim>\<open>sourceData.get(ns)!\<close> is not checked at
  run time: on \<^verbatim>\<open>undefined\<close> the read of \<^verbatim>\<open>size\<close> throws a TypeError that nothing
  catches, which is \<open>None\<close>.
\<close>

fun validate_namespaces ::
  "world \<Rightarrow> (string, (string, string) jsmap) jsmap \<Rightarrow> string \<Rightarrow> string list
     \<Rightarrow> (Issue list \<times> string list \<times> nat \<times> nat) option"
where
  "validate_namespaces w sourceData loc [] = Some ([], [], 0, 0)"
| "validate_namespaces w sourceData loc (ns # rest) =
     (case map_get sourceData ns of
        None \<Rightarrow> None
      | Some sourceKeys \<Rightarrow>
          (case validate_namespace w sourceKeys loc ns of
             (iss, out, translated) \<Rightarrow>
               (case validate_namespaces w sourceData loc rest of
                  None \<Rightarrow> None
                | Some (iss', out', tot', translated') \<Rightarrow>
                    Some (iss @ iss', out @ out', length sourceKeys + tot',
                          translated + translated'))))"

text \<open>Lines 192 to 303, the loop over the locales, with the \<^verbatim>\<open>coverage\<close> map.\<close>

fun validate_locales ::
  "world \<Rightarrow> (string, (string, string) jsmap) jsmap \<Rightarrow> string list
     \<Rightarrow> (string, nat \<times> nat) jsmap
     \<Rightarrow> (Issue list \<times> string list \<times> (string, nat \<times> nat) jsmap) option"
where
  "validate_locales w sourceData [] coverage = Some ([], [], coverage)"
| "validate_locales w sourceData (loc # rest) coverage =
     (case validate_namespaces w sourceData loc NAMESPACES of
        None \<Rightarrow> None
      | Some (iss, out, tot, translated) \<Rightarrow>
          (case validate_locales w sourceData rest (map_set coverage loc (tot, translated)) of
             None \<Rightarrow> None
           | Some (iss', out', coverage') \<Rightarrow> Some (iss @ iss', out @ out', coverage')))"

subsection \<open>The report\<close>

text \<open>Lines 313 to 321: one row of the coverage table; \<open>None\<close> when a \<^verbatim>\<open>repeat\<close> throws.\<close>

definition report_row :: "bool \<Rightarrow> string \<times> nat \<times> nat \<Rightarrow> string option" where
  "report_row ci row =
     (case row of (loc, tot, translated) \<Rightarrow>
        (let pct = pct_of tot translated;
             filled = js_round (fdiv (of_int pct) 5)
         in case js_repeat full_block filled of
              None \<Rightarrow> None
            | Some a \<Rightarrow>
                (case js_repeat light_shade (20 - filled) of
                   None \<Rightarrow> None
                 | Some b \<Rightarrow>
                     Some (''  '' @ cyan ci (padEnd loc 10) @ '' ''
                           @ (if pct = 100 then green ci else if 80 \<le> pct then yellow ci else red ci)
                               (padStart (show_int pct @ ''%'') 5)
                           @ ''   '' @ dim ci (a @ b) @ '' ''
                           @ dim ci (show_nat translated @ ''/'' @ show_nat tot)))))"

fun report_rows :: "bool \<Rightarrow> (string, nat \<times> nat) jsmap \<Rightarrow> string list option" where
  "report_rows ci [] = Some []"
| "report_rows ci (row # rows) =
     (case report_row ci row of
        None \<Rightarrow> None
      | Some line \<Rightarrow>
          (case report_rows ci rows of None \<Rightarrow> None | Some lines \<Rightarrow> Some (line # lines)))"

definition report_header :: "bool \<Rightarrow> string list" where
  "report_header ci =
     [bold ci (nl @ ''  Translation Coverage'' @ nl),
      ''  '' @ padEnd ''Locale'' 10 @ '' '' @ padEnd ''Progress'' 8 @ '' '' @ padEnd ''Bar'' 22
        @ '' '' @ ''Keys'',
      ''  '' @ str_repeat ''-'' 10 @ '' '' @ str_repeat ''-'' 8 @ '' '' @ str_repeat ''-'' 22
        @ '' '' @ str_repeat ''-'' 12]"

text \<open>Lines 323 to 329.\<close>

definition report_errors :: "bool \<Rightarrow> Issue list \<Rightarrow> string list" where
  "report_errors ci errors =
     (if length errors > 0 then
        bold ci (red ci (nl @ ''  '' @ show_nat (length errors) @ '' error(s):'' @ nl))
        # concat (map (\<lambda>issue.
            [red ci (''  x '' @ issue_locale issue @ ''/'' @ issue_namespace issue @ ''.json : ''
                     @ issue_key issue),
             ''    '' @ issue_message issue @ nl]) errors)
      else [])"

text \<open>Lines 331 to 349.\<close>

definition report_warnings :: "bool \<Rightarrow> Issue list \<Rightarrow> string list" where
  "report_warnings ci warnings =
     (if length warnings > 0 then
        (let missing = filter (\<lambda>w. issue_message w = ''Missing translation'') warnings;
             empty = filter (\<lambda>w. issue_message w = ''Empty value'') warnings
         in [bold ci (yellow ci (nl @ ''  '' @ show_nat (length warnings) @ '' warning(s):'' @ nl))]
            @ (if length missing > 0 then
                 [yellow ci (''  '' @ show_nat (length missing) @ '' missing translation(s)'')]
                 @ map (\<lambda>w. dim ci (''    '' @ issue_locale w @ ''/'' @ issue_namespace w
                                      @ ''.json : '' @ issue_key w)) (take 10 missing)
                 @ (if length missing > 10 then
                      [dim ci (''    ... and '' @ show_nat (length missing - 10) @ '' more'')]
                    else [])
               else [])
            @ (if length empty > 0 then
                 [yellow ci (''  '' @ show_nat (length empty) @ '' empty value(s)'')]
               else []))
      else [])"

text \<open>Lines 306 to 353: everything the report writes, \<open>None\<close> when a row throws.\<close>

definition report :: "bool \<Rightarrow> Issue list \<Rightarrow> (string, nat \<times> nat) jsmap \<Rightarrow> string list option" where
  "report ci issues coverage =
     (case report_rows ci coverage of
        None \<Rightarrow> None
      | Some rows \<Rightarrow>
          Some (report_header ci @ rows
                @ report_errors ci (filter is_error issues)
                @ report_warnings ci (filter is_warning issues)
                @ (if length (filter is_error issues) = 0
                   then [green ci (bold ci (nl @ ''  All checks passed.'' @ nl))] else [])))"

subsection \<open>The run\<close>

text \<open>
  What a run leaves behind when the script calls \<^verbatim>\<open>process.exit\<close>: the exit code, the
  issues pushed so far, the coverage map, and the lines written to the standard output
  and the standard error.
\<close>

record outcome =
  exit_code :: nat
  issues :: "Issue list"
  coverage :: "(string, nat \<times> nat) jsmap"
  stdout :: "string list"
  stderr :: "string list"

text \<open>
  \<^verbatim>\<open>main\<close>, lines 154 to 356. \<open>None\<close> is an exception that nothing catches (the TypeError
  or the RangeError above); \<open>main_exits\<close> below shows that there is none.
\<close>

definition main :: "world \<Rightarrow> outcome option" where
  "main w =
     (case load_source w NAMESPACES [] [] of
        Inl (ns, iss) \<Rightarrow>
          Some \<lparr>exit_code = 1, issues = iss, coverage = [], stdout = [],
                stderr = [red (isCI w) (''FATAL: cannot load '' @ SOURCE_LOCALE @ ''/'' @ ns @ ''.json'')]\<rparr>
      | Inr (sourceData, iss) \<Rightarrow>
          if length (discoverLocales w) = 0 then
            Some \<lparr>exit_code = 0, issues = iss, coverage = [],
                  stdout = [yellow (isCI w) ''No target locales found.''], stderr = []\<rparr>
          else
            (case validate_locales w sourceData (discoverLocales w) [] of
               None \<Rightarrow> None
             | Some (iss', out, cov) \<Rightarrow>
                 (case report (isCI w) (iss @ iss') cov of
                    None \<Rightarrow> None
                  | Some lines \<Rightarrow>
                      Some \<lparr>exit_code = (if length (filter is_error (iss @ iss')) > 0 then 1 else 0),
                            issues = iss @ iss', coverage = cov,
                            stdout = out @ lines, stderr = []\<rparr>)))"

subsection \<open>What a run computes, stage by stage\<close>

text \<open>
  Names for the parts of a run that the properties below speak of: the flattened source
  document of a namespace, the result of one namespace of one target locale, and the
  issues and counters of a locale summed over the namespaces.
\<close>

definition source_keys_of :: "(string, (string, string) jsmap) jsmap \<Rightarrow> string \<Rightarrow> (string, string) jsmap" where
  "source_keys_of sourceData ns = (case map_get sourceData ns of None \<Rightarrow> [] | Some m \<Rightarrow> m)"

definition ns_issues ::
  "world \<Rightarrow> (string, (string, string) jsmap) jsmap \<Rightarrow> string \<Rightarrow> string \<Rightarrow> Issue list" where
  "ns_issues w sourceData loc ns = fst (validate_namespace w (source_keys_of sourceData ns) loc ns)"

definition ns_output ::
  "world \<Rightarrow> (string, (string, string) jsmap) jsmap \<Rightarrow> string \<Rightarrow> string \<Rightarrow> string list" where
  "ns_output w sourceData loc ns =
     fst (snd (validate_namespace w (source_keys_of sourceData ns) loc ns))"

definition ns_translated ::
  "world \<Rightarrow> (string, (string, string) jsmap) jsmap \<Rightarrow> string \<Rightarrow> string \<Rightarrow> nat" where
  "ns_translated w sourceData loc ns =
     snd (snd (validate_namespace w (source_keys_of sourceData ns) loc ns))"

definition total_keys :: "(string, (string, string) jsmap) jsmap \<Rightarrow> nat" where
  "total_keys sourceData = sum_list (map (\<lambda>ns. length (source_keys_of sourceData ns)) NAMESPACES)"

definition locale_issues ::
  "world \<Rightarrow> (string, (string, string) jsmap) jsmap \<Rightarrow> string \<Rightarrow> Issue list" where
  "locale_issues w sourceData loc = concat (map (ns_issues w sourceData loc) NAMESPACES)"

definition locale_output ::
  "world \<Rightarrow> (string, (string, string) jsmap) jsmap \<Rightarrow> string \<Rightarrow> string list" where
  "locale_output w sourceData loc = concat (map (ns_output w sourceData loc) NAMESPACES)"

definition locale_translated ::
  "world \<Rightarrow> (string, (string, string) jsmap) jsmap \<Rightarrow> string \<Rightarrow> nat" where
  "locale_translated w sourceData loc = sum_list (map (ns_translated w sourceData loc) NAMESPACES)"

definition target_issues ::
  "world \<Rightarrow> (string, (string, string) jsmap) jsmap \<Rightarrow> string list \<Rightarrow> Issue list" where
  "target_issues w sourceData locs = concat (map (locale_issues w sourceData) locs)"

definition target_output ::
  "world \<Rightarrow> (string, (string, string) jsmap) jsmap \<Rightarrow> string list \<Rightarrow> string list" where
  "target_output w sourceData locs = concat (map (locale_output w sourceData) locs)"

definition covers :: "(string, (string, string) jsmap) jsmap \<Rightarrow> string list \<Rightarrow> bool" where
  "covers sourceData nss = list_all (\<lambda>ns. map_get sourceData ns \<noteq> None) nss"

text \<open>A source document that loads: \<^verbatim>\<open>loadJSON\<close> returns a truthy value.\<close>

definition loads :: "world \<Rightarrow> string \<Rightarrow> string \<Rightarrow> bool" where
  "loads w loc ns = (case loadJSON w loc ns of None \<Rightarrow> False | Some data \<Rightarrow> \<not> falsy data)"

text \<open>The source keys that the target has, and those among them whose value is not empty
  after trimming.\<close>

definition present_keys :: "(string, string) jsmap \<Rightarrow> (string, string) jsmap \<Rightarrow> (string \<times> string) list" where
  "present_keys sourceKeys targetKeys = filter (\<lambda>kv. map_has targetKeys (fst kv)) sourceKeys"

definition nonempty_keys :: "(string, string) jsmap \<Rightarrow> (string, string) jsmap \<Rightarrow> (string \<times> string) list" where
  "nonempty_keys sourceKeys targetKeys =
     filter (\<lambda>kv. case map_get targetKeys (fst kv) of None \<Rightarrow> False | Some v \<Rightarrow> trim v \<noteq> [])
       sourceKeys"

text \<open>The flattened source document of a namespace, the map \<^verbatim>\<open>sourceData\<close> after the
  first loop, the issues of the source locale, and the coverage map after the second
  loop.\<close>

definition source_flat :: "world \<Rightarrow> string \<Rightarrow> (string, string) jsmap" where
  "source_flat w ns = (case loadJSON w SOURCE_LOCALE ns of None \<Rightarrow> [] | Some data \<Rightarrow> flatten data [])"

definition source_data :: "world \<Rightarrow> string list \<Rightarrow> (string, (string, string) jsmap) jsmap
    \<Rightarrow> (string, (string, string) jsmap) jsmap" where
  "source_data w nss sourceData = fold (\<lambda>ns m. map_set m ns (source_flat w ns)) nss sourceData"

definition source_locale_issues :: "world \<Rightarrow> string list \<Rightarrow> Issue list" where
  "source_locale_issues w nss = concat (map (\<lambda>ns. source_issues w ns (source_flat w ns)) nss)"

definition run_coverage :: "world \<Rightarrow> (string, (string, string) jsmap) jsmap \<Rightarrow> string list
    \<Rightarrow> (string, nat \<times> nat) jsmap \<Rightarrow> (string, nat \<times> nat) jsmap" where
  "run_coverage w sourceData locs cov =
     fold (\<lambda>loc c. map_set c loc (total_keys sourceData, locale_translated w sourceData loc)) locs cov"

definition fatal_outcome :: "world \<Rightarrow> outcome" where
  "fatal_outcome w =
     \<lparr>exit_code = 1,
      issues = source_locale_issues w (takeWhile (loads w SOURCE_LOCALE) NAMESPACES),
      coverage = [], stdout = [],
      stderr = [red (isCI w) (''FATAL: cannot load '' @ SOURCE_LOCALE @ ''/''
                  @ hd (dropWhile (loads w SOURCE_LOCALE) NAMESPACES) @ ''.json'')]\<rparr>"

definition run_issues :: "world \<Rightarrow> Issue list" where
  "run_issues w = source_locale_issues w NAMESPACES
     @ target_issues w (source_data w NAMESPACES []) (discoverLocales w)"

definition target_flat :: "world \<Rightarrow> string \<Rightarrow> string \<Rightarrow> (string, string) jsmap" where
  "target_flat w loc ns = (case loadJSON w loc ns of None \<Rightarrow> [] | Some data \<Rightarrow> flatten data [])"

subsection \<open>Example worlds\<close>

text \<open>
  The worlds of the examples below. \<open>example_parser\<close> stands for the ICU parser on the
  messages of the examples: a lone \<^verbatim>\<open>{\<close> is a syntax error, \<^verbatim>\<open>{name}\<close> is an argument,
  and any other message of the examples is literal text. \<open>example_json\<close> stands for
  \<^verbatim>\<open>JSON.parse\<close> on the texts of the examples.
\<close>

definition example_parser :: icu_parser where
  "example_parser ignoreTag message =
     (if message = ''{'' then Inl ''EXPECT_ARGUMENT_CLOSING_BRACE''
      else if message = ''{name}'' then Inr [Argument ''name'']
      else Inr [Literal message])"

definition example_json :: "string \<Rightarrow> json option" where
  "example_json text =
     (if text = ''{\"title\": \"Hello\"}'' then Some (JObj [(''title'', JStr ''Hello'')])
      else if text = ''{\"title\": \" \"}'' then Some (JObj [(''title'', JStr '' '')])
      else if text = ''{\"title\": \"{\"}'' then Some (JObj [(''title'', JStr ''{'')])
      else if text = ''{}'' then Some (JObj [])
      else if text = ''null'' then Some JNull
      else None)"

text \<open>No file can be read.\<close>

definition empty_world :: world where
  "empty_world =
     \<lparr>meta_dir = ''/repo/scripts'', read_text = (\<lambda>path. None), json_parse = example_json,
      readdir = (\<lambda>path. []), icu_parse = example_parser, github_actions = None\<rparr>"

text \<open>Every source file is \<^verbatim>\<open>{"title": "{"}\<close>, and there is no target locale.\<close>

definition source_only_world :: world where
  "source_only_world =
     \<lparr>meta_dir = ''/repo/scripts'', read_text = (\<lambda>path. Some ''{\"title\": \"{\"}''),
      json_parse = example_json, readdir = (\<lambda>path. [(''en-US'', True), (''README.md'', False)]),
      icu_parse = example_parser, github_actions = None\<rparr>"

text \<open>
  Every source file is \<^verbatim>\<open>{"title": "Hello"}\<close>. The one target locale \<^verbatim>\<open>ko-KR\<close> has
  \<^verbatim>\<open>game.json\<close> with a title of one space, \<^verbatim>\<open>site.json\<close> with \<^verbatim>\<open>null\<close>,
  \<^verbatim>\<open>pages.json\<close> with \<^verbatim>\<open>{}\<close>, and no other file.
\<close>

definition korean_world :: world where
  "korean_world =
     \<lparr>meta_dir = ''/repo/scripts'',
      read_text = (\<lambda>path.
        if path = ''/repo/scripts/../locales/ko-KR/game.json'' then Some ''{\"title\": \" \"}''
        else if path = ''/repo/scripts/../locales/ko-KR/site.json'' then Some ''null''
        else if path = ''/repo/scripts/../locales/ko-KR/pages.json'' then Some ''{}''
        else if take 30 path = ''/repo/scripts/../locales/en-US'' then Some ''{\"title\": \"Hello\"}''
        else None),
      json_parse = example_json,
      readdir = (\<lambda>path. [(''en-US'', True), (''ko-KR'', True)]),
      icu_parse = example_parser, github_actions = None\<rparr>"

text \<open>
  What the ICU parser returns for the message \<^verbatim>\<open><b>{name}</b>\<close>: a tag element when tags
  are parsed, and literal text around the argument under \<^verbatim>\<open>ignoreTag\<close>, which makes the
  parser treat tags as text.
\<close>

definition tag_parser :: icu_parser where
  "tag_parser ignoreTag message =
     (if message = ''<b>{name}</b>'' then
        (if ignoreTag then Inr [Literal ''<b>'', Argument ''name'', Literal ''</b>'']
         else Inr [Tag ''b'' [Argument ''name'']])
      else Inr [Literal message])"

section \<open>Properties\<close>

subsection \<open>Maps, decimal strings and key paths\<close>


lemma map_of_map_set: "map_of (map_set m k v) = (map_of m)(k \<mapsto> v)"
  by (induction m k v rule: map_set.induct) auto

lemma keys_map_set: "fst ` set (map_set m k v) = insert k (fst ` set m)"
  by (induction m k v rule: map_set.induct) auto

lemma distinct_map_set: "distinct (map fst m) \<Longrightarrow> distinct (map fst (map_set m k v))"
  by (induction m k v rule: map_set.induct) (auto simp: keys_map_set)

lemma map_of_map_set_all: "map_of (map_set_all src dst) = map_of dst ++ map_of (rev src)"
  unfolding map_set_all_def
  by (induction src arbitrary: dst) (auto simp: map_of_map_set map_add_upd_left)

lemma keys_map_set_all: "fst ` set (map_set_all src dst) = fst ` set dst \<union> fst ` set src"
  unfolding map_set_all_def
  by (induction src arbitrary: dst) (auto simp: keys_map_set)

lemma distinct_map_set_all: "distinct (map fst dst) \<Longrightarrow> distinct (map fst (map_set_all src dst))"
  unfolding map_set_all_def
  by (induction src arbitrary: dst) (auto simp: distinct_map_set)

lemma map_of_rev_distinct: "distinct (map fst m) \<Longrightarrow> map_of (rev m) = map_of m"
  by (rule ext) (metis distinct_rev map_of_eq_None_iff map_of_is_SomeI not_None_eq option.exhaust rev_map set_rev map_of_SomeD)


lemma entries_of_simps:
  "entries_of p [] = []"
  "entries_of p (a @ b) = entries_of p a @ entries_of p b"
  "entries_of p (([seg], s) # ls) = (child_path p seg, s) # entries_of p ls"
  "entries_of p (map (\<lambda>pv. (seg # fst pv, snd pv)) ls) = entries_of (child_path p seg) ls"
  by (simp_all add: entries_of_def path_from_def comp_def)

lemma flatten_distinct:
  "distinct (map fst (flatten j p))"
  "distinct (map fst r) \<Longrightarrow> distinct (map fst (flatten_items xs i p r))"
  "distinct (map fst r) \<Longrightarrow> distinct (map fst (flatten_entries kvs p r))"
  by (induction j p and xs i p r and kvs p r rule: flatten_flatten_items_flatten_entries.induct)
     (auto split: json.splits simp: distinct_map_set distinct_map_set_all)

lemma flatten_keys:
  "fst ` set (flatten j p) = fst ` set (entries_of p (leaves j))"
  "fst ` set (flatten_items xs i p r) = fst ` set r \<union> fst ` set (entries_of p (leaves_items xs i))"
  "fst ` set (flatten_entries kvs p r) = fst ` set r \<union> fst ` set (entries_of p (leaves_entries kvs))"
proof (induction j p and xs i p r and kvs p r rule: flatten_flatten_items_flatten_entries.induct)
  case (8 x xs i prefix result)
  then show ?case
    by (cases x) (simp_all add: entries_of_simps keys_map_set keys_map_set_all image_Un Un_assoc Un_commute Un_left_commute insert_commute, auto?)
next
  case (10 key val kvs prefix result)
  then show ?case
    by (cases val) (simp_all add: entries_of_simps keys_map_set keys_map_set_all image_Un Un_assoc Un_commute Un_left_commute insert_commute, auto?)
qed (simp_all add: entries_of_simps)

lemma flatten_map_of:
  "map_of (flatten j p) = map_of (rev (entries_of p (leaves j)))"
  "distinct (map fst r) \<Longrightarrow> map_of (flatten_items xs i p r) = map_of r ++ map_of (rev (entries_of p (leaves_items xs i)))"
  "distinct (map fst r) \<Longrightarrow> map_of (flatten_entries kvs p r) = map_of r ++ map_of (rev (entries_of p (leaves_entries kvs)))"
proof (induction j p and xs i p r and kvs p r rule: flatten_flatten_items_flatten_entries.induct)
  case (8 x xs i prefix result)
  then show ?case
    by (cases x)
       (simp_all add: entries_of_simps map_of_map_set map_of_map_set_all distinct_map_set
          distinct_map_set_all map_of_rev_distinct flatten_distinct map_add_upd_left
          del: flatten.simps leaves.simps, (simp_all add: fun_upd_def)?)
next
  case (10 key val kvs prefix result)
  then show ?case
    by (cases val)
       (simp_all add: entries_of_simps map_of_map_set map_of_map_set_all distinct_map_set
          distinct_map_set_all map_of_rev_distinct flatten_distinct map_add_upd_left
          del: flatten.simps leaves.simps, (simp_all add: fun_upd_def)?)
qed (simp_all add: entries_of_simps)


lemma of_char_digit: "d < 10 \<Longrightarrow> of_char (digit_char d) = (48 + d :: nat)"
  unfolding digit_char_def of_char_of by simp

lemma digit_char_inj:
  assumes "a < 10" "b < 10" "digit_char a = digit_char b"
  shows "a = b"
proof -
  from assms(3) have "(of_char (digit_char a) :: nat) = of_char (digit_char b)"
    by (rule arg_cong)
  then have "48 + a = 48 + b"
    by (simp only: of_char_digit [OF assms(1)] of_char_digit [OF assms(2)])
  then show ?thesis by (rule add_left_imp_eq)
qed

lemma digit_char_not_dot:
  assumes "d < 10"
  shows "digit_char d \<noteq> CHR ''.''"
proof
  assume "digit_char d = CHR ''.''"
  then have "(of_char (digit_char d) :: nat) = of_char (CHR ''.'')"
    by (rule arg_cong)
  then have "48 + d = (46 :: nat)"
    by (simp only: of_char_digit [OF assms]) simp
  then show False by arith
qed

lemma show_nat_nonempty: "show_nat n \<noteq> []"
  by (subst show_nat.simps) simp

lemma show_nat_no_dot: "CHR ''.'' \<notin> set (show_nat n)"
proof (induction n rule: show_nat.induct)
  case (1 n)
  show ?case
  proof (cases "n < 10")
    case True
    then show ?thesis by (subst show_nat.simps) (simp add: digit_char_not_dot digit_char_not_dot [symmetric])
  next
    case False
    then have "CHR ''.'' \<notin> set (show_nat (n div 10))" using 1 by simp
    moreover have "digit_char (n mod 10) \<noteq> CHR ''.''" by (simp add: digit_char_not_dot digit_char_not_dot [symmetric])
    ultimately show ?thesis using False by (subst show_nat.simps) auto
  qed
qed

lemma show_nat_plain: "plain_name (show_nat n)"
  by (simp add: plain_name_def show_nat_nonempty show_nat_no_dot)

lemma show_nat_inj: "show_nat n = show_nat m \<Longrightarrow> n = m"
proof (induction n arbitrary: m rule: show_nat.induct)
  case (1 n)
  show ?case
  proof (cases "n < 10")
    case n: True
    show ?thesis
    proof (cases "m < 10")
      case True
      with n 1(2) show ?thesis
        by (simp add: show_nat.simps [of n] show_nat.simps [of m] digit_char_inj)
    next
      case False
      with n 1(2) have "show_nat (m div 10) = []"
        by (simp add: show_nat.simps [of n] show_nat.simps [of m] Cons_eq_append_conv)
      then show ?thesis by (simp add: show_nat_nonempty)
    qed
  next
    case n: False
    show ?thesis
    proof (cases "m < 10")
      case True
      with n 1(2) have "show_nat (n div 10) = []"
        by (simp add: show_nat.simps [of n] show_nat.simps [of m] append_eq_Cons_conv)
      then show ?thesis by (simp add: show_nat_nonempty)
    next
      case False
      with n 1(2) have e: "show_nat (n div 10) = show_nat (m div 10)"
        and d: "digit_char (n mod 10) = digit_char (m mod 10)"
        by (simp_all add: show_nat.simps [of n] show_nat.simps [of m])
      from 1(1) [OF n e] have "n div 10 = m div 10" .
      moreover from d have "n mod 10 = m mod 10" by (simp add: digit_char_inj)
      ultimately show ?thesis by (metis div_mult_mod_eq)
    qed
  qed
qed


lemma path_from_nonempty: "p \<noteq> [] \<Longrightarrow> path_from p pos = p @ dotted pos"
  by (induction pos arbitrary: p) (simp_all add: path_from_def dotted_def child_path_def)

lemma key_path_Cons: "s \<noteq> [] \<Longrightarrow> key_path (s # pos) = s @ dotted pos"
  using path_from_nonempty [of s pos] by (simp add: key_path_def path_from_def child_path_def)

lemma takeWhile_dotted: "takeWhile (\<lambda>c. c \<noteq> CHR ''.'') (dotted pos) = []"
  by (cases pos) (simp_all add: dotted_def)

lemma plain_takeWhile: "plain_name s \<Longrightarrow> takeWhile (\<lambda>c. c \<noteq> CHR ''.'') (s @ dotted pos) = s"
proof -
  assume "plain_name s"
  then have "\<And>c. c \<in> set s \<Longrightarrow> c \<noteq> CHR ''.''" by (auto simp: plain_name_def)
  then have "takeWhile (\<lambda>c. c \<noteq> CHR ''.'') (s @ dotted pos) = s @ takeWhile (\<lambda>c. c \<noteq> CHR ''.'') (dotted pos)"
    by (rule takeWhile_append2)
  then show ?thesis by (simp add: takeWhile_dotted)
qed

lemma plain_append_dotted:
  assumes "plain_name s" "plain_name t" "s @ dotted a = t @ dotted b"
  shows "s = t \<and> dotted a = dotted b"
proof -
  have "s = takeWhile (\<lambda>c. c \<noteq> CHR ''.'') (s @ dotted a)" using assms(1) by (simp add: plain_takeWhile)
  also have "\<dots> = t" using assms(2,3) by (simp add: plain_takeWhile)
  finally have "s = t" .
  with assms(3) show ?thesis by simp
qed

lemma dotted_inj:
  "list_all plain_name a \<Longrightarrow> list_all plain_name b \<Longrightarrow> dotted a = dotted b \<Longrightarrow> a = b"
proof (induction a arbitrary: b)
  case Nil
  then show ?case by (cases b) (simp_all add: dotted_def)
next
  case (Cons s a)
  show ?case
  proof (cases b)
    case Nil
    with Cons.prems show ?thesis by (simp add: dotted_def)
  next
    case (Cons t b')
    with Cons.prems have "s @ dotted a = t @ dotted b'" by (simp add: dotted_def)
    moreover have "plain_name s" "plain_name t" using Cons.prems Cons by simp_all
    ultimately have "s = t" "dotted a = dotted b'" using plain_append_dotted by blast+
    moreover have "a = b'" using Cons.IH [of b'] Cons.prems Cons \<open>dotted a = dotted b'\<close> by simp
    ultimately show ?thesis using Cons by simp
  qed
qed

lemma key_path_inj:
  assumes "list_all plain_name a" "list_all plain_name b" "key_path a = key_path b"
  shows "a = b"
proof (cases a)
  case Nil
  show ?thesis
  proof (cases b)
    case Nil
    with \<open>a = []\<close> show ?thesis by simp
  next
    case (Cons t b')
    then have "plain_name t" using assms(2) by simp
    then have "key_path b \<noteq> []" using Cons by (simp add: key_path_Cons plain_name_def)
    then show ?thesis using assms(3) \<open>a = []\<close> by (simp add: key_path_def path_from_def)
  qed
next
  case (Cons s a')
  then have s: "plain_name s" using assms(1) by simp
  show ?thesis
  proof (cases b)
    case Nil
    have "key_path a \<noteq> []" using Cons s by (simp add: key_path_Cons plain_name_def)
    then show ?thesis using assms(3) Nil by (simp add: key_path_def path_from_def)
  next
    case (Cons t b')
    then have t: "plain_name t" using assms(2) by simp
    have "s @ dotted a' = t @ dotted b'"
      using assms(3) \<open>a = s # a'\<close> Cons s t by (simp add: key_path_Cons plain_name_def)
    then have "s = t" "dotted a' = dotted b'" using plain_append_dotted s t by blast+
    moreover have "a' = b'" using dotted_inj [of a' b'] assms(1,2) \<open>a = s # a'\<close> Cons \<open>dotted a' = dotted b'\<close> by simp
    ultimately show ?thesis using \<open>a = s # a'\<close> Cons by simp
  qed
qed

lemma leaves_plain:
  "plain_keys j \<Longrightarrow> \<forall>pv \<in> set (leaves j). list_all plain_name (fst pv)"
  "list_all plain_keys xs \<Longrightarrow> \<forall>pv \<in> set (leaves_items xs i). list_all plain_name (fst pv)"
  "list_all (\<lambda>kv. plain_name (fst kv) \<and> plain_keys (snd kv)) kvs \<Longrightarrow> \<forall>pv \<in> set (leaves_entries kvs). list_all plain_name (fst pv)"
proof (induction j and xs i and kvs rule: leaves_leaves_items_leaves_entries.induct)
  case (8 x xs i)
  then show ?case by (cases x) (auto simp: show_nat_plain)
next
  case (10 key val kvs)
  then show ?case by (cases val) auto
qed simp_all

lemma leaves_items_head:
  "pv \<in> set (leaves_items xs i) \<Longrightarrow> \<exists>k\<ge>i. \<exists>rest. fst pv = show_nat k # rest"
proof (induction xs arbitrary: i)
  case Nil
  then show ?case by simp
next
  case (Cons x xs)
  from Cons.prems consider
    (here) "\<exists>rest. fst pv = show_nat i # rest" | (later) "pv \<in> set (leaves_items xs (i + 1))"
    by (cases x) auto
  then show ?case
  proof cases
    case here
    then show ?thesis by blast
  next
    case later
    from Cons.IH [OF later] show ?thesis by (metis Suc_eq_plus1 Suc_leD)
  qed
qed

lemma leaves_entries_head:
  "pv \<in> set (leaves_entries kvs) \<Longrightarrow> \<exists>k\<in>fst ` set kvs. \<exists>rest. fst pv = k # rest"
proof (induction kvs)
  case Nil
  then show ?case by simp
next
  case (Cons kv kvs)
  obtain key val where kv: "kv = (key, val)" by (cases kv)
  from Cons.prems kv consider
    (here) "\<exists>rest. fst pv = key # rest" | (later) "pv \<in> set (leaves_entries kvs)"
    by (cases val) auto
  then show ?case
  proof cases
    case here
    then show ?thesis using kv by auto
  next
    case later
    from Cons.IH [OF later] show ?thesis by auto
  qed
qed

lemma distinct_push: "distinct (map fst ls) \<Longrightarrow> distinct (map (fst \<circ> (\<lambda>pv. (seg # fst pv, snd pv))) ls)"
  by (simp add: comp_def distinct_map inj_on_def)

lemma leaves_distinct:
  "wf_json j \<Longrightarrow> distinct (map fst (leaves j))"
  "list_all wf_json xs \<Longrightarrow> distinct (map fst (leaves_items xs i))"
  "distinct (map fst kvs) \<Longrightarrow> list_all (\<lambda>kv. wf_json (snd kv)) kvs \<Longrightarrow> distinct (map fst (leaves_entries kvs))"
proof (induction j and xs i and kvs rule: leaves_leaves_items_leaves_entries.induct)
  case (8 x xs i)
  have later: "\<And>rest v. (show_nat i # rest, v) \<in> set (leaves_items xs (Suc i)) \<Longrightarrow> False"
  proof -
    fix rest v assume "(show_nat i # rest, v) \<in> set (leaves_items xs (Suc i))"
    from leaves_items_head [OF this]
    obtain k where "k \<ge> Suc i" "show_nat k = show_nat i" by auto
    then show False using show_nat_inj [of k i] by simp
  qed
  from 8 show ?case
    by (cases x) (auto simp: distinct_push dest: later simp del: leaves.simps)
next
  case (10 key val kvs)
  have later: "\<And>rest v. (key # rest, v) \<in> set (leaves_entries kvs) \<Longrightarrow> False"
  proof -
    fix rest v assume "(key # rest, v) \<in> set (leaves_entries kvs)"
    from leaves_entries_head [OF this] have "key \<in> fst ` set kvs" by auto
    then show False using 10(4) by simp
  qed
  from 10 show ?case
    by (cases val) (auto simp: distinct_push dest: later simp del: leaves.simps)
qed simp_all


subsection \<open>Rounding to a double\<close>

lemma round_even_err: "\<bar>of_int (round_even x) - x\<bar> \<le> 1 / 2"
proof -
  have "of_int \<lfloor>x\<rfloor> \<le> x" "x < of_int \<lfloor>x\<rfloor> + 1" by linarith+
  then show ?thesis
    unfolding round_even_def Let_def by (auto simp: abs_le_iff) 
qed

lemma floorlog_pos: "0 < n \<Longrightarrow> 0 < floorlog 2 n"
  by (simp add: floorlog_def)

lemma ilog2_bounds:
  assumes "0 < q"
  shows "2 powi (ilog2 q) \<le> q" and "q < 2 powi (ilog2 q + 1)"
proof -
  obtain p d where pd: "quotient_of q = (p, d)" by (cases "quotient_of q")
  then have d: "0 < d" and q: "q = of_int p / of_int d"
    using quotient_of_denom_pos quotient_of_div by blast+
  from assms q d have p: "0 < p" by (simp add: zero_less_divide_iff)
  define a where "a = floorlog 2 (nat p)"
  define b where "b = floorlog 2 (nat d)"
  have a: "0 < a" and b: "0 < b" using p d by (simp_all add: a_def b_def floorlog_pos)
  have pa: "2 ^ (a - 1) \<le> nat p" "nat p < 2 ^ a"
    using floorlog_bounds [of "nat p" 2] p by (simp_all add: a_def)
  have db: "2 ^ (b - 1) \<le> nat d" "nat d < 2 ^ b"
    using floorlog_bounds [of "nat d" 2] d by (simp_all add: b_def)
  have pr: "(2::rat) ^ (a - 1) \<le> of_int p" "of_int p < (2::rat) ^ a"
  proof -
    have "(of_nat (2 ^ (a - 1)) :: rat) \<le> of_nat (nat p)" using pa(1) by (simp only: of_nat_le_iff)
    then show "(2::rat) ^ (a - 1) \<le> of_int p" using p by simp
    have "(of_nat (nat p) :: rat) < of_nat (2 ^ a)" using pa(2) by (simp only: of_nat_less_iff)
    then show "of_int p < (2::rat) ^ a" using p by simp
  qed
  have dr: "(2::rat) ^ (b - 1) \<le> of_int d" "of_int d < (2::rat) ^ b"
  proof -
    have "(of_nat (2 ^ (b - 1)) :: rat) \<le> of_nat (nat d)" using db(1) by (simp only: of_nat_le_iff)
    then show "(2::rat) ^ (b - 1) \<le> of_int d" using d by simp
    have "(of_nat (nat d) :: rat) < of_nat (2 ^ b)" using db(2) by (simp only: of_nat_less_iff)
    then show "of_int d < (2::rat) ^ b" using d by simp
  qed
  define e0 where "e0 = int a - int b"
  have dpos: "(0::rat) < of_int d" using d by simp
  have up: "q < 2 powi (e0 + 1)"
  proof -
    have "q * of_int d = of_int p" using q dpos by simp
    also have "\<dots> < 2 ^ a" by (rule pr(2))
    also have "\<dots> = 2 powi (e0 + 1) * 2 ^ (b - 1)"
    proof -
      have "(2::rat) ^ a = 2 powi (int a)" by simp
      also have "int a = (e0 + 1) + int (b - 1)" using b by (simp add: e0_def)
      also have "(2::rat) powi ((e0 + 1) + int (b - 1)) = 2 powi (e0 + 1) * 2 powi int (b - 1)"
        by (simp add: power_int_add)
      finally show ?thesis by simp
    qed
    also have "\<dots> \<le> 2 powi (e0 + 1) * of_int d"
      using dr(1) by (simp add: mult_left_mono)
    finally show ?thesis using dpos by simp
  qed
  have low: "2 powi (e0 - 1) < q"
  proof -
    have "2 powi (e0 - 1) * of_int d < 2 powi (e0 - 1) * (2::rat) ^ b"
      using dr(2) by (simp add: mult_strict_left_mono)
    also have "\<dots> = 2 ^ (a - 1)"
    proof -
      have "(2::rat) ^ (a - 1) = 2 powi (int (a - 1))" by simp
      also have "int (a - 1) = (e0 - 1) + int b" using a by (simp add: e0_def)
      also have "(2::rat) powi ((e0 - 1) + int b) = 2 powi (e0 - 1) * 2 powi int b"
        by (simp add: power_int_add)
      finally show ?thesis by simp
    qed
    also have "\<dots> \<le> of_int p" by (rule pr(1))
    also have "\<dots> = q * of_int d" using q dpos by simp
    finally show ?thesis using dpos by simp
  qed
  have il: "ilog2 q = (if 2 powi e0 \<le> q then e0 else e0 - 1)"
    by (simp add: ilog2_def pd Let_def a_def b_def e0_def)
  show "2 powi (ilog2 q) \<le> q" using low by (simp add: il)
  show "q < 2 powi (ilog2 q + 1)" using up by (auto simp: il not_le)
qed

lemma fl_pos_err:
  assumes "0 < q"
  shows "\<bar>fl q - q\<bar> \<le> q / 2 ^ 53"
proof -
  define s :: rat where "s = 2 powi (ilog2 q - 52)"
  have s: "0 < s" by (simp add: s_def)
  have s52: "s * 2 ^ 52 = 2 powi (ilog2 q)"
  proof -
    have "s * 2 ^ 52 = 2 powi (ilog2 q - 52) * 2 powi 52" by (simp add: s_def)
    also have "\<dots> = 2 powi (ilog2 q - 52 + 52)" by (rule power_int_add [symmetric]) simp
    finally show ?thesis by simp
  qed
  have sq: "s * 2 ^ 52 \<le> q" using ilog2_bounds(1) [OF assms] s52 by simp
  have f: "fl q = of_int (round_even (q / s)) * s" using assms by (simp add: fl_def s_def)
  have "fl q - q = (of_int (round_even (q / s)) - q / s) * s"
    using s by (simp add: f left_diff_distrib)
  then have "\<bar>fl q - q\<bar> = \<bar>of_int (round_even (q / s)) - q / s\<bar> * s"
    using s by (simp add: abs_mult)
  also have "\<dots> \<le> 1 / 2 * s" using round_even_err [of "q / s"] s by (simp add: mult_right_mono)
  also have "\<dots> = s * 2 ^ 52 / 2 ^ 53" by simp
  also have "\<dots> \<le> q / 2 ^ 53" using sq by (simp add: divide_right_mono)
  finally show ?thesis .
qed


subsection \<open>The report returns\<close>

lemma fl_bounds:
  assumes "0 \<le> q"
  shows "q * (1 - 1 / 2 ^ 53) \<le> fl q" and "fl q \<le> q * (1 + 1 / 2 ^ 53)"
proof -
  have "\<bar>fl q - q\<bar> \<le> q / 2 ^ 53"
  proof (cases "q = 0")
    case True
    then show ?thesis by (simp add: fl_def)
  next
    case False
    with assms have "0 < q" by simp
    then show ?thesis by (rule fl_pos_err)
  qed
  moreover define u :: rat where "u = 1 / 2 ^ 53"
  moreover have "q / 2 ^ 53 = q * u"
    unfolding u_def by (simp only: times_divide_eq_right mult_1_right)
  ultimately have "\<bar>fl q - q\<bar> \<le> q * u" by (simp only:)
  then have b: "q - q * u \<le> fl q" "fl q \<le> q + q * u" by linarith+
  have eq: "q * (1 - 1 / 2 ^ 53) = q - q * u" "q * (1 + 1 / 2 ^ 53) = q + q * u"
    unfolding u_def by (simp_all only: right_diff_distrib distrib_left mult_1_right)
  show "q * (1 - 1 / 2 ^ 53) \<le> fl q" unfolding eq by (rule b(1))
  show "fl q \<le> q * (1 + 1 / 2 ^ 53)" unfolding eq by (rule b(2))
qed

lemma fl_nonneg: "0 \<le> q \<Longrightarrow> 0 \<le> fl q"
proof -
  assume q: "0 \<le> q"
  have "(0::rat) \<le> 1 - 1 / 2 ^ 53" by simp
  with q have "0 \<le> q * (1 - 1 / 2 ^ 53)" by (rule mult_nonneg_nonneg)
  also have "\<dots> \<le> fl q" using q by (rule fl_bounds(1))
  finally show ?thesis .
qed

lemma js_round_bounds: "0 \<le> x \<Longrightarrow> x < of_int n + 1 / 2 \<Longrightarrow> 0 \<le> js_round x \<and> js_round x \<le> n"
  unfolding js_round_def by (auto simp: floor_le_iff le_floor_iff) 

lemma pct_of_bounds:
  assumes "translated \<le> tot"
  shows "0 \<le> pct_of tot translated \<and> pct_of tot translated \<le> 100"
proof (cases "tot > 0")
  case False
  then show ?thesis by (simp add: pct_of_def)
next
  case True
  define a :: rat where "a = of_nat translated / of_nat tot"
  have a: "0 \<le> a" "a \<le> 1" using assms True by (simp_all add: a_def)
  define y1 where "y1 = fl a"
  have y1: "0 \<le> y1" "y1 \<le> 1 + 1 / 2 ^ 53"
  proof -
    show "0 \<le> y1" using a(1) by (simp add: y1_def fl_nonneg)
    have "y1 \<le> a * (1 + 1 / 2 ^ 53)" using a(1) unfolding y1_def by (rule fl_bounds(2))
    also have "\<dots> \<le> 1 * (1 + 1 / 2 ^ 53)" using a(2) by (intro mult_right_mono) simp_all
    finally show "y1 \<le> 1 + 1 / 2 ^ 53" by simp
  qed
  define y where "y = fl (y1 * 100)"
  have y: "0 \<le> y" "y < 100 + 1 / 2"
  proof -
    have n: "0 \<le> y1 * 100" using y1(1) by simp
    show "0 \<le> y" using n by (simp add: y_def fl_nonneg)
    have "y \<le> y1 * 100 * (1 + 1 / 2 ^ 53)" using n unfolding y_def by (rule fl_bounds(2))
    also have "\<dots> \<le> (1 + 1 / 2 ^ 53) * 100 * (1 + 1 / 2 ^ 53)"
      using y1(2) by (intro mult_right_mono) simp_all
    also have "\<dots> < 100 + 1 / 2" by simp
    finally show "y < 100 + 1 / 2" .
  qed
  have "pct_of tot translated = js_round y"
    using True by (simp add: pct_of_def fdiv_def fmul_def y_def y1_def a_def)
  then show ?thesis using js_round_bounds [of y 100] y by simp
qed

lemma filled_bounds:
  assumes "0 \<le> pct" "pct \<le> 100"
  shows "0 \<le> js_round (fdiv (of_int pct) 5) \<and> js_round (fdiv (of_int pct) 5) \<le> 20"
proof -
  define a :: rat where "a = of_int pct / 5"
  have a: "0 \<le> a" "a \<le> 20" using assms by (simp_all add: a_def)
  have "fl a \<le> a * (1 + 1 / 2 ^ 53)" using a(1) by (rule fl_bounds(2))
  also have "\<dots> \<le> 20 * (1 + 1 / 2 ^ 53)" using a(2) by (intro mult_right_mono) simp_all
  also have "\<dots> < 20 + 1 / 2" by simp
  finally have "fl a < of_int 20 + 1 / 2" by simp
  moreover have "0 \<le> fl a" using a(1) by (rule fl_nonneg)
  ultimately show ?thesis using js_round_bounds [of "fl a" 20] by (simp add: fdiv_def a_def)
qed

lemma report_row_returns:
  assumes "translated \<le> tot"
  shows "\<exists>line. report_row ci (loc, tot, translated) = Some line"
proof -
  from pct_of_bounds [OF assms] have p: "0 \<le> pct_of tot translated" "pct_of tot translated \<le> 100"
    by simp_all
  from filled_bounds [OF p] show ?thesis
    by (simp add: report_row_def Let_def js_repeat_def)
qed

lemma report_rows_returns:
  "\<forall>row \<in> set cov. snd (snd row) \<le> fst (snd row) \<Longrightarrow> \<exists>lines. report_rows ci cov = Some lines"
proof (induction cov)
  case Nil
  then show ?case by simp
next
  case (Cons row cov)
  obtain loc tot translated where row: "row = (loc, tot, translated)" by (cases row) auto
  with Cons.prems have "translated \<le> tot" by simp
  from report_row_returns [OF this] obtain line where "report_row ci row = Some line"
    using row by blast
  moreover from Cons obtain lines where "report_rows ci cov = Some lines" by auto
  ultimately show ?case by simp
qed

lemma report_returns:
  "\<forall>row \<in> set cov. snd (snd row) \<le> fst (snd row) \<Longrightarrow> \<exists>lines. report ci iss cov = Some lines"
  using report_rows_returns [of cov ci] by (auto simp: report_def)


subsection \<open>The stages of a run\<close>

lemma map_get_map_set: "map_get (map_set m k v) k' = (if k' = k then Some v else map_get m k')"
  by (simp add: map_get_def map_of_map_set)

lemma map_has_iff: "map_has m k \<longleftrightarrow> map_get m k \<noteq> None"
  by (simp add: map_has_def map_get_def map_of_eq_None_iff)

lemma check_key_translated: "snd (snd (check_key w loc ns tk kv)) \<le> 1"
  by (simp add: check_key_def split: option.splits prod.splits)

lemma check_key_present:
  "snd (snd (check_key w loc ns tk kv)) = (if map_has tk (fst kv) then 1 else 0)"
  by (simp add: check_key_def map_has_iff split: option.splits prod.splits)

lemma check_keys_Cons:
  "check_keys w loc ns tk (kv # rest) =
     (fst (check_key w loc ns tk kv) @ fst (check_keys w loc ns tk rest),
      fst (snd (check_key w loc ns tk kv)) @ fst (snd (check_keys w loc ns tk rest)),
      snd (snd (check_key w loc ns tk kv)) + snd (snd (check_keys w loc ns tk rest)))"
  by (simp split: prod.splits)

lemma check_keys_translated:
  "snd (snd (check_keys w loc ns tk sks)) = length (present_keys sks tk)"
  by (induction sks)
     (simp_all add: present_keys_def check_key_present check_keys_Cons del: check_keys.simps(2))

lemma check_keys_issues:
  "fst (check_keys w loc ns tk sks) = concat (map (\<lambda>kv. fst (check_key w loc ns tk kv)) sks)"
  by (induction sks) (simp_all add: check_keys_Cons del: check_keys.simps(2))

lemma check_keys_output:
  "fst (snd (check_keys w loc ns tk sks)) = concat (map (\<lambda>kv. fst (snd (check_key w loc ns tk kv))) sks)"
  by (induction sks) (simp_all add: check_keys_Cons del: check_keys.simps(2))

lemma present_keys_le: "length (present_keys sks tk) \<le> length sks"
  by (simp add: present_keys_def)

lemma validate_namespace_failed:
  "\<not> loads w loc ns \<Longrightarrow> validate_namespace w sks loc ns = file_failure (isCI w) loc ns"
  by (simp add: validate_namespace_def loads_def split: option.splits)

lemma validate_namespace_loaded:
  "loadJSON w loc ns = Some data \<Longrightarrow> \<not> falsy data \<Longrightarrow>
   validate_namespace w sks loc ns =
     (fst (extra_keys (isCI w) loc ns sks (flatten data []))
        @ fst (check_keys w loc ns (flatten data []) sks),
      snd (extra_keys (isCI w) loc ns sks (flatten data []))
        @ fst (snd (check_keys w loc ns (flatten data []) sks)),
      snd (snd (check_keys w loc ns (flatten data []) sks)))"
  by (simp add: validate_namespace_def split: prod.splits)

lemma validate_namespace_translated:
  "snd (snd (validate_namespace w sks loc ns)) =
     (case loadJSON w loc ns of
        None \<Rightarrow> 0
      | Some data \<Rightarrow> if falsy data then 0 else length (present_keys sks (flatten data [])))"
proof (cases "loads w loc ns")
  case False
  then show ?thesis
    by (auto simp: validate_namespace_failed file_failure_def loads_def split: option.splits)
next
  case True
  then obtain data where "loadJSON w loc ns = Some data" "\<not> falsy data"
    by (auto simp: loads_def split: option.splits)
  then show ?thesis by (simp add: validate_namespace_loaded check_keys_translated)
qed

lemma validate_namespace_translated_le:
  "snd (snd (validate_namespace w sks loc ns)) \<le> length sks"
  by (simp add: validate_namespace_translated present_keys_le split: option.splits)

lemma validate_namespaces_closed:
  "covers sd nss \<Longrightarrow>
   validate_namespaces w sd loc nss =
     Some (concat (map (ns_issues w sd loc) nss), concat (map (ns_output w sd loc) nss),
           sum_list (map (\<lambda>ns. length (source_keys_of sd ns)) nss),
           sum_list (map (ns_translated w sd loc) nss))"
proof (induction nss)
  case Nil
  then show ?case by simp
next
  case (Cons ns nss)
  from Cons.prems obtain sks where sks: "map_get sd ns = Some sks" and rest: "covers sd nss"
    by (auto simp: covers_def)
  obtain iss out tr where v: "validate_namespace w sks loc ns = (iss, out, tr)"
    by (cases "validate_namespace w sks loc ns") auto
  show ?case
    using Cons.IH [OF rest] sks v
    by (simp add: ns_issues_def ns_output_def ns_translated_def source_keys_of_def)
qed

lemma validate_locales_closed:
  "covers sd NAMESPACES \<Longrightarrow>
   validate_locales w sd locs cov =
     Some (target_issues w sd locs, target_output w sd locs,
           run_coverage w sd locs cov)"
proof (induction locs arbitrary: cov)
  case Nil
  then show ?case by (simp add: target_issues_def target_output_def run_coverage_def)
next
  case (Cons loc locs)
  show ?case
    using Cons.IH [OF Cons.prems] validate_namespaces_closed [OF Cons.prems, of w loc]
    by (simp add: target_issues_def target_output_def locale_issues_def locale_output_def
          locale_translated_def total_keys_def run_coverage_def)
qed

lemma ns_translated_le: "ns_translated w sd loc ns \<le> length (source_keys_of sd ns)"
  by (simp add: ns_translated_def validate_namespace_translated_le)

lemma locale_translated_le: "locale_translated w sd loc \<le> total_keys sd"
  unfolding locale_translated_def total_keys_def
  by (rule sum_list_mono) (simp add: ns_translated_le)

lemma map_set_values:
  "\<forall>row \<in> set m. P (snd row) \<Longrightarrow> P v \<Longrightarrow> \<forall>row \<in> set (map_set m k v). P (snd row)"
  by (induction m k v rule: map_set.induct) auto

lemma coverage_values:
  "\<forall>row \<in> set cov. snd (snd row) \<le> fst (snd row) \<Longrightarrow>
   \<forall>row \<in> set (run_coverage w sd locs cov). snd (snd row) \<le> fst (snd row)"
proof (induction locs arbitrary: cov)
  case Nil
  then show ?case by (simp add: run_coverage_def)
next
  case (Cons loc locs)
  have "\<forall>row \<in> set (map_set cov loc (total_keys sd, locale_translated w sd loc)).
          snd (snd row) \<le> fst (snd row)"
    using Cons.prems by (rule map_set_values) (simp add: locale_translated_le)
  from Cons.IH [OF this] show ?case by (simp add: run_coverage_def)
qed

lemma fold_map_set_lookup:
  "k \<in> set ks \<Longrightarrow> map_get (fold (\<lambda>k m. map_set m k (f k)) ks m0) k = Some (f k)"
proof (induction ks arbitrary: m0 rule: rev_induct)
  case Nil
  then show ?case by simp
next
  case (snoc l ks)
  then show ?case by (auto simp: map_get_map_set)
qed

lemma fold_map_set_other:
  "k \<notin> set ks \<Longrightarrow> map_get (fold (\<lambda>k m. map_set m k (f k)) ks m0) k = map_get m0 k"
  by (induction ks arbitrary: m0 rule: rev_induct) (auto simp: map_get_map_set)

lemma coverage_lookup:
  "loc \<in> set locs \<Longrightarrow>
   map_get (run_coverage w sd locs cov) loc = Some (total_keys sd, locale_translated w sd loc)"
  unfolding run_coverage_def by (rule fold_map_set_lookup)

lemma source_data_lookup:
  "ns \<in> set nss \<Longrightarrow> map_get (source_data w nss sd) ns = Some (source_flat w ns)"
  unfolding source_data_def by (rule fold_map_set_lookup)

lemma source_data_covers: "covers (source_data w nss sd) nss"
  by (simp add: covers_def list_all_iff source_data_lookup)

lemma source_keys_of_source_data:
  "ns \<in> set nss \<Longrightarrow> source_keys_of (source_data w nss sd) ns = source_flat w ns"
  by (simp add: source_keys_of_def source_data_lookup)

lemma load_source_all:
  "list_all (loads w SOURCE_LOCALE) nss \<Longrightarrow>
   load_source w nss sd iss = Inr (source_data w nss sd, iss @ source_locale_issues w nss)"
proof (induction nss arbitrary: sd iss)
  case Nil
  then show ?case by (simp add: source_data_def source_locale_issues_def)
next
  case (Cons ns nss)
  from Cons.prems obtain data where d: "loadJSON w SOURCE_LOCALE ns = Some data" "\<not> falsy data"
    by (auto simp: loads_def split: option.splits)
  from Cons.prems have rest: "list_all (loads w SOURCE_LOCALE) nss" by simp
  show ?case
    using d Cons.IH [OF rest]
    by (simp add: source_data_def source_locale_issues_def source_flat_def)
qed

lemma load_source_fatal:
  "\<not> list_all (loads w SOURCE_LOCALE) nss \<Longrightarrow>
   load_source w nss sd iss =
     Inl (hd (dropWhile (loads w SOURCE_LOCALE) nss),
          iss @ source_locale_issues w (takeWhile (loads w SOURCE_LOCALE) nss))"
proof (induction nss arbitrary: sd iss)
  case Nil
  then show ?case by simp
next
  case (Cons ns nss)
  show ?case
  proof (cases "loads w SOURCE_LOCALE ns")
    case False
    then show ?thesis
      by (auto simp: loads_def source_locale_issues_def split: option.splits)
  next
    case True
    then obtain data where d: "loadJSON w SOURCE_LOCALE ns = Some data" "\<not> falsy data"
      by (auto simp: loads_def split: option.splits)
    from True Cons.prems have rest: "\<not> list_all (loads w SOURCE_LOCALE) nss" by simp
    show ?thesis
      using d True Cons.IH [OF rest]
      by (simp add: source_locale_issues_def source_flat_def)
  qed
qed

lemma main_fatal:
  "\<not> list_all (loads w SOURCE_LOCALE) NAMESPACES \<Longrightarrow> main w = Some (fatal_outcome w)"
  by (simp add: main_def load_source_fatal fatal_outcome_def)

lemma main_no_locales:
  "list_all (loads w SOURCE_LOCALE) NAMESPACES \<Longrightarrow> discoverLocales w = [] \<Longrightarrow>
   main w = Some \<lparr>exit_code = 0, issues = source_locale_issues w NAMESPACES, coverage = [],
                  stdout = [yellow (isCI w) ''No target locales found.''], stderr = []\<rparr>"
  by (simp add: main_def load_source_all)

lemma main_run:
  assumes "list_all (loads w SOURCE_LOCALE) NAMESPACES" "discoverLocales w \<noteq> []"
  shows "\<exists>lines. main w =
     Some \<lparr>exit_code = (if length (filter is_error (run_issues w)) > 0 then 1 else 0),
           issues = run_issues w,
           coverage = run_coverage w (source_data w NAMESPACES []) (discoverLocales w) [],
           stdout = target_output w (source_data w NAMESPACES []) (discoverLocales w) @ lines,
           stderr = []\<rparr>"
proof -
  let ?sd = "source_data w NAMESPACES []"
  let ?cov = "run_coverage w ?sd (discoverLocales w) []"
  have c: "covers ?sd NAMESPACES" by (rule source_data_covers)
  have "\<forall>row \<in> set ?cov. snd (snd row) \<le> fst (snd row)"
    by (rule coverage_values) simp
  from report_returns [OF this]
  obtain lines where l: "report (isCI w) (run_issues w) ?cov = Some lines" by blast
  show ?thesis
    using assms l
    by (simp add: main_def load_source_all validate_locales_closed [OF c] run_issues_def)
qed

lemma main_exits: "\<exists>r. main w = Some r"
proof (cases "list_all (loads w SOURCE_LOCALE) NAMESPACES")
  case False
  then show ?thesis by (simp add: main_fatal)
next
  case True
  show ?thesis
  proof (cases "discoverLocales w = []")
    case e: True
    with True show ?thesis by (simp add: main_no_locales)
  next
    case False
    from main_run [OF True False] show ?thesis by blast
  qed
qed

subsection \<open>Which issues belong to a locale, a namespace and a key\<close>

lemma NAMESPACES_distinct: "distinct NAMESPACES"
  by (simp add: NAMESPACES_def)

lemma file_failure_issues:
  "i \<in> set (fst (file_failure ci loc ns)) \<Longrightarrow>
   issue_locale i = loc \<and> issue_namespace i = ns \<and> issue_key i = ''*'' \<and> issue_type i = Error"
  by (auto simp: file_failure_def)

lemma extra_keys_issues:
  "i \<in> set (fst (extra_keys ci loc ns sks tk)) \<Longrightarrow>
   issue_locale i = loc \<and> issue_namespace i = ns \<and> \<not> map_has sks (issue_key i) \<and> issue_type i = Error"
  by (auto simp: extra_keys_def Let_def)

lemma placeholder_issues_issues:
  "i \<in> set (fst (placeholder_issues ci loc ns key s t)) \<Longrightarrow>
   issue_locale i = loc \<and> issue_namespace i = ns \<and> issue_key i = key \<and> issue_type i = Error"
  by (auto simp: placeholder_issues_def Let_def)

lemma check_key_issues:
  "i \<in> set (fst (check_key w loc ns tk kv)) \<Longrightarrow>
   issue_locale i = loc \<and> issue_namespace i = ns \<and> issue_key i = fst kv"
  using placeholder_issues_issues [of i "isCI w" loc ns "fst kv"]
  by (auto simp: check_key_def split: option.splits if_splits prod.splits) (metis fst_conv)+

lemma validate_namespace_issues:
  "i \<in> set (fst (validate_namespace w sks loc ns)) \<Longrightarrow>
   issue_locale i = loc \<and> issue_namespace i = ns"
proof (cases "loads w loc ns")
  case False
  assume "i \<in> set (fst (validate_namespace w sks loc ns))"
  with False show ?thesis by (simp add: validate_namespace_failed file_failure_issues)
next
  case True
  assume i: "i \<in> set (fst (validate_namespace w sks loc ns))"
  from True obtain data where "loadJSON w loc ns = Some data" "\<not> falsy data"
    by (auto simp: loads_def split: option.splits)
  with i show ?thesis
    by (auto simp: validate_namespace_loaded check_keys_issues
          dest: extra_keys_issues check_key_issues)
qed

lemma source_issues_locale:
  "i \<in> set (source_locale_issues w nss) \<Longrightarrow> issue_locale i = SOURCE_LOCALE \<and> issue_type i = Error"
  by (auto simp: source_locale_issues_def source_issues_def source_issue_def
        split: option.splits if_splits)

lemma discoverLocales_not_source: "loc \<in> set (discoverLocales w) \<Longrightarrow> loc \<noteq> SOURCE_LOCALE"
  by (auto simp: discoverLocales_def)

lemma discoverLocales_distinct:
  "distinct (map fst (readdir w (LOCALES_DIR w))) \<Longrightarrow> distinct (discoverLocales w)"
  by (simp add: discoverLocales_def distinct_map_filter)

lemma filter_concat_one:
  assumes "distinct xs" "x0 \<in> set xs"
    and "\<And>x i. x \<in> set xs \<Longrightarrow> x \<noteq> x0 \<Longrightarrow> i \<in> set (f x) \<Longrightarrow> \<not> P i"
  shows "filter P (concat (map f xs)) = filter P (f x0)"
  using assms
proof (induction xs)
  case Nil
  then show ?case by simp
next
  case (Cons x xs)
  show ?case
  proof (cases "x = x0")
    case True
    with Cons.prems have "x0 \<notin> set xs" by simp
    then have "\<And>y i. y \<in> set xs \<Longrightarrow> i \<in> set (f y) \<Longrightarrow> \<not> P i"
      using Cons.prems(3) by (metis list.set_intros(2))
    then have "filter P (concat (map f xs)) = []"
      by (auto simp: filter_empty_conv)
    with True show ?thesis by simp
  next
    case False
    with Cons.prems have "distinct xs" "x0 \<in> set xs" by simp_all
    moreover have "\<And>y i. y \<in> set xs \<Longrightarrow> y \<noteq> x0 \<Longrightarrow> i \<in> set (f y) \<Longrightarrow> \<not> P i"
      using Cons.prems(3) by (metis list.set_intros(2))
    ultimately have "filter P (concat (map f xs)) = filter P (f x0)" by (rule Cons.IH)
    moreover have "filter P (f x) = []"
      using Cons.prems(3) [of x] False by (auto simp: filter_empty_conv)
    ultimately show ?thesis by simp
  qed
qed

lemma ns_issues_pair:
  "i \<in> set (ns_issues w sd loc ns) \<Longrightarrow> issue_locale i = loc \<and> issue_namespace i = ns"
  unfolding ns_issues_def by (rule validate_namespace_issues)

lemma locale_issues_pair:
  assumes "ns \<in> set NAMESPACES"
  shows "filter (\<lambda>i. issue_locale i = loc \<and> issue_namespace i = ns) (locale_issues w sd loc)
           = ns_issues w sd loc ns"
proof -
  have "filter (\<lambda>i. issue_locale i = loc \<and> issue_namespace i = ns) (locale_issues w sd loc)
          = filter (\<lambda>i. issue_locale i = loc \<and> issue_namespace i = ns) (ns_issues w sd loc ns)"
    unfolding locale_issues_def
    using NAMESPACES_distinct assms
    by (rule filter_concat_one) (auto dest: ns_issues_pair)
  also have "\<dots> = ns_issues w sd loc ns"
    by (rule filter_True) (auto dest: ns_issues_pair)
  finally show ?thesis .
qed

lemma locale_issues_locale: "i \<in> set (locale_issues w sd loc) \<Longrightarrow> issue_locale i = loc"
  by (auto simp: locale_issues_def dest: ns_issues_pair)

lemma run_issues_pair:
  assumes "distinct (map fst (readdir w (LOCALES_DIR w)))"
    and "loc \<in> set (discoverLocales w)" "ns \<in> set NAMESPACES"
  shows "filter (\<lambda>i. issue_locale i = loc \<and> issue_namespace i = ns) (run_issues w)
           = ns_issues w (source_data w NAMESPACES []) loc ns"
proof -
  let ?P = "\<lambda>i. issue_locale i = loc \<and> issue_namespace i = ns"
  let ?sd = "source_data w NAMESPACES []"
  have "filter ?P (source_locale_issues w NAMESPACES) = []"
    using discoverLocales_not_source [OF assms(2)]
    by (auto simp: filter_empty_conv dest: source_issues_locale)
  moreover have "filter ?P (target_issues w ?sd (discoverLocales w)) = filter ?P (locale_issues w ?sd loc)"
    unfolding target_issues_def
    using discoverLocales_distinct [OF assms(1)] assms(2)
    by (rule filter_concat_one) (auto dest: locale_issues_locale)
  ultimately show ?thesis
    by (simp add: run_issues_def locale_issues_pair [OF assms(3)])
qed


subsection \<open>The example worlds\<close>

lemma korean_source_loads: "list_all (loads korean_world SOURCE_LOCALE) NAMESPACES"
  by (simp add: loads_def loadJSON_def korean_world_def LOCALES_DIR_def SOURCE_LOCALE_def
        NAMESPACES_def example_json_def)

lemma korean_locales: "discoverLocales korean_world = [''ko-KR'']"
  by (simp add: discoverLocales_def korean_world_def SOURCE_LOCALE_def)

lemma korean_readdir: "distinct (map fst (readdir korean_world (LOCALES_DIR korean_world)))"
  by (simp add: korean_world_def)

lemma korean_source_flat:
  "ns \<in> set NAMESPACES \<Longrightarrow> source_flat korean_world ns = [(''title'', ''Hello'')]"
  by (auto simp: source_flat_def loadJSON_def korean_world_def LOCALES_DIR_def SOURCE_LOCALE_def
        NAMESPACES_def example_json_def child_path_def)

lemma korean_error_file: "loadJSON korean_world ''ko-KR'' ''error'' = None"
  by (simp add: loadJSON_def korean_world_def LOCALES_DIR_def)

lemma korean_site_file: "loadJSON korean_world ''ko-KR'' ''site'' = Some JNull"
  by (simp add: loadJSON_def korean_world_def LOCALES_DIR_def example_json_def)

lemma korean_pages_file: "loadJSON korean_world ''ko-KR'' ''pages'' = Some (JObj [])"
  by (simp add: loadJSON_def korean_world_def LOCALES_DIR_def example_json_def)

lemma korean_game_file: "loadJSON korean_world ''ko-KR'' ''game'' = Some (JObj [(''title'', JStr '' '')])"
  by (simp add: loadJSON_def korean_world_def LOCALES_DIR_def example_json_def)

lemma source_only_loads: "list_all (loads source_only_world SOURCE_LOCALE) NAMESPACES"
  by (simp add: loads_def loadJSON_def source_only_world_def NAMESPACES_def example_json_def)

lemma source_only_locales: "discoverLocales source_only_world = []"
  by (simp add: discoverLocales_def source_only_world_def SOURCE_LOCALE_def)

lemma empty_world_fails: "\<not> list_all (loads empty_world SOURCE_LOCALE) NAMESPACES"
  by (simp add: loads_def loadJSON_def empty_world_def NAMESPACES_def)

lemma korean_counts:
  "total_keys (source_data korean_world NAMESPACES []) = 5
   \<and> locale_translated korean_world (source_data korean_world NAMESPACES []) ''ko-KR'' = 1"
proof -
  have s: "\<And>n. n \<in> set NAMESPACES \<Longrightarrow>
      source_keys_of (source_data korean_world NAMESPACES []) n = [(''title'', ''Hello'')]"
    by (simp add: source_keys_of_source_data korean_source_flat)
  have "total_keys (source_data korean_world NAMESPACES []) = 5"
    using s by (simp add: total_keys_def NAMESPACES_def)
  moreover have "locale_translated korean_world (source_data korean_world NAMESPACES []) ''ko-KR'' = 1"
    using s
    by (simp add: locale_translated_def ns_translated_def validate_namespace_translated
          NAMESPACES_def korean_game_file korean_site_file korean_pages_file
          present_keys_def map_has_def child_path_def)
       (simp add: loadJSON_def korean_world_def LOCALES_DIR_def)
  ultimately show ?thesis by simp
qed

subsection \<open>C1: the exit code\<close>

text \<open>The exit of line 355: when every source file loads and at least one target locale is
  discovered, the exit code is 1 if and only if an error issue was produced, in the source
  locale or in a target locale, and 0 if and only if every issue is a warning.\<close>

lemma exit_code_with_locales:
  assumes "list_all (loads w SOURCE_LOCALE) NAMESPACES" "discoverLocales w \<noteq> []"
  shows "\<exists>r. main w = Some r
       \<and> (exit_code r = 1 \<longleftrightarrow> (\<exists>i \<in> set (issues r). issue_type i = Error))
       \<and> (exit_code r = 0 \<longleftrightarrow> (\<forall>i \<in> set (issues r). issue_type i = Warning))"
proof -
  from main_run [OF assms] obtain r where r: "main w = Some r"
    and e: "exit_code r = (if length (filter is_error (run_issues w)) > 0 then 1 else 0)"
    and i: "issues r = run_issues w"
    by auto
  have "length (filter is_error (run_issues w)) > 0 \<longleftrightarrow> (\<exists>i \<in> set (run_issues w). issue_type i = Error)"
    by (auto simp: is_error_def filter_empty_conv)
  moreover have "(\<forall>i \<in> set (run_issues w). issue_type i = Warning)
      \<longleftrightarrow> \<not> (\<exists>i \<in> set (run_issues w). issue_type i = Error)"
    by (metis severity.exhaust severity.distinct(1))
  ultimately show ?thesis using r e i by auto
qed

text \<open>
  C1 asks for the exit code 1 whenever an error issue was produced, also for the errors of
  the source locale when no target locale is discovered. The script misses that case: in
  the world whose five source files each hold the invalid message \<^verbatim>\<open>{\<close> and that has no
  target locale, the run pushes five error issues, one per namespace, and ends with the
  exit code 0. The early exit of line 188 does not look at the issues, where the exit of
  line 355 does (\<open>exit_code_with_locales\<close>).
\<close>

theorem no_locales_exit_hides_errors:
  "discoverLocales source_only_world = []
   \<and> map_option exit_code (main source_only_world) = Some 0
   \<and> map_option (map issue_type \<circ> issues) (main source_only_world)
       = Some [Error, Error, Error, Error, Error]
   \<and> map_option (map issue_namespace \<circ> issues) (main source_only_world)
       = Some [''game'', ''site'', ''pages'', ''error'', ''faq'']"
proof -
  have "map_option exit_code (main source_only_world) = Some 0
      \<and> map_option (map issue_type \<circ> issues) (main source_only_world)
          = Some [Error, Error, Error, Error, Error]
      \<and> map_option (map issue_namespace \<circ> issues) (main source_only_world)
          = Some [''game'', ''site'', ''pages'', ''error'', ''faq'']"
    by (simp only: main_no_locales [OF source_only_loads source_only_locales] option.map)
       (simp add: source_locale_issues_def source_issues_def source_issue_def source_flat_def
          loadJSON_def validateICU_def source_only_world_def example_json_def
          example_parser_def NAMESPACES_def)
  with source_only_locales show ?thesis by simp
qed

subsection \<open>C2: the counter of translated keys\<close>

lemma locale_coverage:
  assumes "list_all (loads w SOURCE_LOCALE) NAMESPACES" "loc \<in> set (discoverLocales w)"
  shows "\<exists>r. main w = Some r
       \<and> map_get (coverage r) loc
           = Some (sum_list (map (\<lambda>n. length (source_flat w n)) NAMESPACES),
                   sum_list (map (\<lambda>n. if loads w loc n
                                        then length (present_keys (source_flat w n) (target_flat w loc n))
                                        else 0) NAMESPACES))"
proof -
  let ?sd = "source_data w NAMESPACES []"
  from assms(2) have ne: "discoverLocales w \<noteq> []" by auto
  from main_run [OF assms(1) ne] obtain r where r: "main w = Some r"
    and c: "coverage r = run_coverage w ?sd (discoverLocales w) []"
    by auto
  have tot: "total_keys ?sd = sum_list (map (\<lambda>n. length (source_flat w n)) NAMESPACES)"
    unfolding total_keys_def
    by (rule arg_cong [where f = sum_list]) (simp add: source_keys_of_source_data)
  have "\<And>n. n \<in> set NAMESPACES \<Longrightarrow>
      ns_translated w ?sd loc n
        = (if loads w loc n then length (present_keys (source_flat w n) (target_flat w loc n)) else 0)"
    by (auto simp: ns_translated_def source_keys_of_source_data validate_namespace_translated
          loads_def target_flat_def split: option.splits)
  then have tr: "locale_translated w ?sd loc
      = sum_list (map (\<lambda>n. if loads w loc n
                             then length (present_keys (source_flat w n) (target_flat w loc n))
                             else 0) NAMESPACES)"
    unfolding locale_translated_def
    by (intro arg_cong [where f = sum_list]) simp
  show ?thesis using r by (simp add: c coverage_lookup [OF assms(2)] tot tr)
qed

lemma blank_value_is_counted:
  assumes "map_get targetKeys k = Some v" "trim v = []"
  shows "check_key w loc ns targetKeys (k, sourceValue)
       = ([\<lparr>issue_type = Warning, issue_locale = loc, issue_namespace = ns, issue_key = k,
            issue_message = ''Empty value''\<rparr>], [], 1)"
  using assms by (simp add: check_key_def)

text \<open>
  C2, as stated, fails: a value that is present but blank is counted. The only target key
  of \<^verbatim>\<open>ko-KR\<close> is a title of one space; no source key has a target value that is not
  empty after trimming, in any namespace, and \<^verbatim>\<open>translated\<close> is 1.
\<close>

theorem blank_value_counts_as_translated:
  "map_option coverage (main korean_world) = Some [(''ko-KR'', 5, 1)]
   \<and> target_flat korean_world ''ko-KR'' ''game'' = [(''title'', '' '')]
   \<and> nonempty_keys (source_flat korean_world ''game'') (target_flat korean_world ''ko-KR'' ''game'') = []
   \<and> nonempty_keys (source_flat korean_world ''site'') (target_flat korean_world ''ko-KR'' ''site'') = []
   \<and> nonempty_keys (source_flat korean_world ''pages'') (target_flat korean_world ''ko-KR'' ''pages'') = []
   \<and> nonempty_keys (source_flat korean_world ''error'') (target_flat korean_world ''ko-KR'' ''error'') = []
   \<and> nonempty_keys (source_flat korean_world ''faq'') (target_flat korean_world ''ko-KR'' ''faq'') = []"
proof -
  have ne: "discoverLocales korean_world \<noteq> []" by (simp add: korean_locales)
  from main_run [OF korean_source_loads ne] korean_counts
  have 1: "map_option coverage (main korean_world) = Some [(''ko-KR'', 5, 1)]"
    by (auto simp: korean_locales run_coverage_def)
  have faq: "loadJSON korean_world ''ko-KR'' ''faq'' = None"
    by (simp add: loadJSON_def korean_world_def LOCALES_DIR_def)
  have 2: "target_flat korean_world ''ko-KR'' ''game'' = [(''title'', '' '')]"
    by (simp add: target_flat_def korean_game_file child_path_def)
  have 3: "target_flat korean_world ''ko-KR'' ''site'' = []"
    "target_flat korean_world ''ko-KR'' ''pages'' = []"
    "target_flat korean_world ''ko-KR'' ''error'' = []"
    "target_flat korean_world ''ko-KR'' ''faq'' = []"
    by (simp_all add: target_flat_def korean_site_file korean_pages_file korean_error_file faq)
  have 4: "nonempty_keys (source_flat korean_world ''game'') [(''title'', '' '')] = []"
    by (simp add: korean_source_flat NAMESPACES_def nonempty_keys_def map_get_def trim_def strip_all.simps white_space_def)
  have 5: "\<And>sks. nonempty_keys sks [] = []"
    by (simp add: nonempty_keys_def map_get_def)
  show ?thesis by (simp only: 1 2 3 4 5 simp_thms)
qed

text \<open>
  C2, amended: for every target locale, \<^verbatim>\<open>translated\<close> is the number of source keys that
  the flattened target has, summed over the namespaces whose target file loads, whatever
  the values are; a key whose value is present and trims to the empty string adds one to
  \<^verbatim>\<open>translated\<close>. \<^verbatim>\<open>total\<close> is the number of source keys of all namespaces.
\<close>

theorem translated_counts_present_keys:
  assumes "list_all (loads w SOURCE_LOCALE) NAMESPACES" "loc \<in> set (discoverLocales w)"
  shows "(\<exists>r. main w = Some r
          \<and> map_get (coverage r) loc
              = Some (sum_list (map (\<lambda>n. length (source_flat w n)) NAMESPACES),
                      sum_list (map (\<lambda>n. if loads w loc n
                                           then length (present_keys (source_flat w n) (target_flat w loc n))
                                           else 0) NAMESPACES)))
       \<and> (\<forall>ns targetKeys k v sourceValue.
            map_get targetKeys k = Some v \<and> trim v = [] \<longrightarrow>
            snd (snd (check_key w loc ns targetKeys (k, sourceValue))) = 1)"
  using locale_coverage [OF assms] by (simp add: blank_value_is_counted)

theorem translated_counts_present_keys_witness:
  "list_all (loads korean_world SOURCE_LOCALE) NAMESPACES
   \<and> ''ko-KR'' \<in> set (discoverLocales korean_world)
   \<and> map_get [(''title'', '' '')] ''title'' = Some '' '' \<and> trim '' '' = []
   \<and> snd (snd (check_key korean_world ''ko-KR'' ''game'' [(''title'', '' '')] (''title'', ''Hello''))) = 1
   \<and> (\<exists>r. main korean_world = Some r \<and> map_option snd (map_get (coverage r) ''ko-KR'') = Some 1)"
proof -
  have loc: "''ko-KR'' \<in> set (discoverLocales korean_world)" by (simp add: korean_locales)
  have g: "map_get [(''title'', '' '')] ''title'' = Some '' ''" by (simp add: map_get_def)
  have t: "trim '' '' = []" by (simp add: trim_def strip_all.simps white_space_def)
  have l: "loads korean_world ''ko-KR'' ''game''" "\<not> loads korean_world ''ko-KR'' ''site''"
    "loads korean_world ''ko-KR'' ''pages''" "\<not> loads korean_world ''ko-KR'' ''error''"
    "\<not> loads korean_world ''ko-KR'' ''faq''"
    by (simp_all add: loads_def korean_game_file korean_site_file korean_pages_file
          korean_error_file)
       (simp add: loadJSON_def korean_world_def LOCALES_DIR_def)
  have p: "present_keys (source_flat korean_world ''game'') (target_flat korean_world ''ko-KR'' ''game'')
             = [(''title'', ''Hello'')]"
    "present_keys (source_flat korean_world ''pages'') (target_flat korean_world ''ko-KR'' ''pages'') = []"
    by (simp_all add: korean_source_flat NAMESPACES_def target_flat_def korean_game_file
          korean_pages_file present_keys_def map_has_def child_path_def)
  from translated_counts_present_keys [OF korean_source_loads loc]
  show ?thesis
    using korean_source_loads loc g t l p by (auto simp: NAMESPACES_def)
qed

subsection \<open>C3: a source file that cannot be loaded\<close>

text \<open>
  C3, as stated, fails: when no source file can be read the run ends with the exit code 1,
  the code of a run that found errors, and not with a code of its own.
\<close>

theorem fatal_exit_code_is_one:
  "map_option exit_code (main empty_world) = Some 1"
proof -
  have "\<not> list_all (loads empty_world SOURCE_LOCALE) NAMESPACES"
    by (simp add: loads_def loadJSON_def empty_world_def NAMESPACES_def)
  from main_fatal [OF this] show ?thesis by (simp add: fatal_outcome_def)
qed

text \<open>
  C3, amended: when a source namespace file is missing, is not JSON or holds a falsy value,
  the run ends at once with the exit code 1, the same code as a run that found errors:
  no target locale is compared (the coverage map and the standard output are empty, every
  issue pushed so far is one of the source locale), and one line goes to the standard
  error.
\<close>

theorem source_failure_aborts:
  assumes "ns \<in> set NAMESPACES" "\<not> loads w SOURCE_LOCALE ns"
  shows "\<exists>r. main w = Some r \<and> exit_code r = 1 \<and> coverage r = [] \<and> stdout r = []
       \<and> length (stderr r) = 1
       \<and> (\<forall>i \<in> set (issues r). issue_locale i = SOURCE_LOCALE)"
proof -
  from assms have "\<not> list_all (loads w SOURCE_LOCALE) NAMESPACES"
    by (auto simp: list_all_iff)
  from main_fatal [OF this] show ?thesis
    by (auto simp: fatal_outcome_def dest: source_issues_locale)
qed

theorem source_failure_aborts_witness:
  "''game'' \<in> set NAMESPACES \<and> \<not> loads empty_world SOURCE_LOCALE ''game''
   \<and> map_option coverage (main empty_world) = Some []
   \<and> map_option stdout (main empty_world) = Some []"
proof -
  have ns: "''game'' \<in> set NAMESPACES" by (simp add: NAMESPACES_def)
  have l: "\<not> loads empty_world SOURCE_LOCALE ''game''"
    by (simp add: loads_def loadJSON_def empty_world_def)
  from source_failure_aborts [OF ns l] show ?thesis using ns l by auto
qed

subsection \<open>C4: flattening and key paths\<close>

text \<open>
  C4, as stated, fails: flattening is not injective on every JSON tree. In
  \<^verbatim>\<open>{"a": {"b": "y"}, "a.b": "x"}\<close> the two string leaves at the positions \<open>a\<close>, \<open>b\<close> and
  \<open>a.b\<close> are given the same key path \<^verbatim>\<open>a.b\<close>, and the flattened map keeps one entry:
  the value \<^verbatim>\<open>y\<close> is overwritten.
\<close>

theorem flatten_not_injective:
  "wf_json colliding_doc
   \<and> leaves colliding_doc = [([''a'', ''b''], ''y''), ([''a.b''], ''x'')]
   \<and> key_path [''a'', ''b''] = key_path [''a.b'']
   \<and> flatten colliding_doc [] = [(''a.b'', ''x'')]"
  by (simp add: colliding_doc_def key_path_def path_from_def child_path_def map_set_all_def)

text \<open>
  C4, amended: on a JSON tree in which no object key is empty or holds the separator
  \<^verbatim>\<open>.\<close>, the key paths of the string leaves are pairwise distinct, the flattened map
  holds the value of every leaf under the key path of the leaf, and it has as many entries
  as the tree has string leaves.
\<close>

theorem flatten_plain_keys_injective:
  assumes "wf_json j" "plain_keys j"
  shows "distinct (map (key_path \<circ> fst) (leaves j))
       \<and> (\<forall>pv \<in> set (leaves j). map_get (flatten j []) (key_path (fst pv)) = Some (snd pv))
       \<and> length (flatten j []) = length (leaves j)"
proof -
  have pos: "distinct (map fst (leaves j))" using assms(1) by (rule leaves_distinct)
  have plain: "\<forall>pv \<in> set (leaves j). list_all plain_name (fst pv)"
    using assms(2) by (rule leaves_plain)
  have "inj_on key_path (set (map fst (leaves j)))"
    using plain by (auto simp: inj_on_def intro: key_path_inj)
  with pos have d: "distinct (map key_path (map fst (leaves j)))"
    by (simp only: distinct_map simp_thms)
  then have d': "distinct (map (key_path \<circ> fst) (leaves j))" by simp
  have e: "map fst (entries_of [] (leaves j)) = map (key_path \<circ> fst) (leaves j)"
    by (simp add: entries_of_def key_path_def comp_def)
  have de: "distinct (map fst (entries_of [] (leaves j)))" using d' e by simp
  have m: "map_of (flatten j []) = map_of (entries_of [] (leaves j))"
    using flatten_map_of(1) [of j "[]"] de by (simp add: map_of_rev_distinct)
  have look: "\<forall>pv \<in> set (leaves j). map_get (flatten j []) (key_path (fst pv)) = Some (snd pv)"
  proof
    fix pv assume "pv \<in> set (leaves j)"
    then have "(key_path (fst pv), snd pv) \<in> set (entries_of [] (leaves j))"
      by (force simp: entries_of_def key_path_def)
    with de have "map_of (entries_of [] (leaves j)) (key_path (fst pv)) = Some (snd pv)"
      by (rule map_of_is_SomeI)
    then show "map_get (flatten j []) (key_path (fst pv)) = Some (snd pv)"
      by (simp add: map_get_def m)
  qed
  have "length (flatten j []) = card (fst ` set (flatten j []))"
    using flatten_distinct(1) [of j "[]"] by (metis distinct_card length_map set_map)
  also have "\<dots> = card (fst ` set (entries_of [] (leaves j)))"
    by (simp add: flatten_keys(1))
  also have "\<dots> = length (entries_of [] (leaves j))"
    using de by (metis distinct_card length_map set_map)
  also have "\<dots> = length (leaves j)" by (simp add: entries_of_def)
  finally show ?thesis using d' look by blast
qed

theorem flatten_plain_keys_injective_witness:
  "wf_json (JObj [(''a'', JObj [(''b'', JStr ''y'')]), (''c'', JArr [JStr ''x'', JNum 1])])
   \<and> plain_keys (JObj [(''a'', JObj [(''b'', JStr ''y'')]), (''c'', JArr [JStr ''x'', JNum 1])])
   \<and> length (flatten (JObj [(''a'', JObj [(''b'', JStr ''y'')]), (''c'', JArr [JStr ''x'', JNum 1])]) []) = 2"
  using flatten_plain_keys_injective [of "JObj [(''a'', JObj [(''b'', JStr ''y'')]), (''c'', JArr [JStr ''x'', JNum 1])]"]
  by (simp add: plain_name_def)

subsection \<open>C5: tags\<close>

lemma set_add_set: "set (set_add out x) = insert x (set out)"
  by (auto simp: set_add_def)

lemma collect_names:
  "set (collectPlaceholders nodes out) = set out \<union> (\<Union>e \<in> set nodes. placeholder_names e)"
  "set (collect_options opts out)
     = set out \<union> (\<Union>opt \<in> set opts. \<Union>e \<in> set (snd opt). placeholder_names e)"
proof (induction nodes out and opts out rule: collectPlaceholders_collect_options.induct)
  case (2 node nodes out)
  then show ?case by (cases node) (auto simp: set_add_set)
next
  case (4 name els opts out)
  then show ?case by auto
qed simp_all

lemma tag_node_collected:
  assumes "Tag v children \<in> set nodes"
  shows "(''<'' @ v @ ''>'') \<in> set (collectPlaceholders nodes out)
       \<and> (''<'' @ v @ ''>'') \<noteq> v
       \<and> set (collectPlaceholders children []) \<subseteq> set (collectPlaceholders nodes out)"
proof -
  have "placeholder_names (Tag v children) \<subseteq> set (collectPlaceholders nodes out)"
    using assms by (auto simp: collect_names(1) simp del: placeholder_names.simps)
  then show ?thesis by (auto simp: collect_names(1))
qed

text \<open>
  C5: the message \<^verbatim>\<open><b>{name}</b>\<close> holds a tag. \<open>extractPlaceholders\<close> calls the parser
  with \<^verbatim>\<open>ignoreTag: true\<close>, the parser returns the tag as literal text, and the extracted
  set is \<^verbatim>\<open>name\<close> alone: it holds no identifier for the tag, although
  \<open>collectPlaceholders\<close> would add \<^verbatim>\<open><b>\<close> for a tag element (\<open>tag_node_collected\<close>).
\<close>

theorem tag_text_not_extracted:
  "extractPlaceholders tag_parser ''<b>{name}</b>'' = [''name'']
   \<and> collectPlaceholders [Tag ''b'' [Argument ''name'']] [] = [''<b>'', ''name'']"
  by (simp add: extractPlaceholders_def tag_parser_def set_add_def)

subsection \<open>C6: a target file that cannot be loaded\<close>

text \<open>
  C6: for a target locale and a namespace whose file is missing or is not JSON
  (\<open>loadJSON\<close> returns \<open>None\<close>), the issues of the run for that locale and namespace are
  exactly one error with the key \<^verbatim>\<open>*\<close> and the message \<^verbatim>\<open>File missing or invalid JSON\<close>,
  so no issue for a key, and the \<^verbatim>\<open>total\<close> of the locale is the number of source keys
  of all five namespaces, this one included. The source files load (else no target is
  compared), and the directory listing has no name twice.
\<close>

theorem unloadable_target_file:
  assumes "list_all (loads w SOURCE_LOCALE) NAMESPACES"
    and "distinct (map fst (readdir w (LOCALES_DIR w)))"
    and "loc \<in> set (discoverLocales w)" "ns \<in> set NAMESPACES"
    and "loadJSON w loc ns = None"
  shows "\<exists>r translated. main w = Some r
       \<and> filter (\<lambda>i. issue_locale i = loc \<and> issue_namespace i = ns) (issues r)
           = [\<lparr>issue_type = Error, issue_locale = loc, issue_namespace = ns, issue_key = ''*'',
               issue_message = ''File missing or invalid JSON''\<rparr>]
       \<and> map_get (coverage r) loc
           = Some (sum_list (map (\<lambda>n. length (source_flat w n)) NAMESPACES), translated)"
proof -
  let ?sd = "source_data w NAMESPACES []"
  from assms(3) have ne: "discoverLocales w \<noteq> []" by auto
  from main_run [OF assms(1) ne] obtain r where r: "main w = Some r"
    and i: "issues r = run_issues w"
    and c: "coverage r = run_coverage w ?sd (discoverLocales w) []"
    by auto
  have "ns_issues w ?sd loc ns = fst (file_failure (isCI w) loc ns)"
    using assms(5) by (simp add: ns_issues_def validate_namespace_failed loads_def)
  then have 1: "filter (\<lambda>i. issue_locale i = loc \<and> issue_namespace i = ns) (issues r)
      = [\<lparr>issue_type = Error, issue_locale = loc, issue_namespace = ns, issue_key = ''*'',
          issue_message = ''File missing or invalid JSON''\<rparr>]"
    by (simp add: i run_issues_pair [OF assms(2,3,4)] file_failure_def)
  have "total_keys ?sd = sum_list (map (\<lambda>n. length (source_flat w n)) NAMESPACES)"
    unfolding total_keys_def
    by (rule arg_cong [where f = sum_list]) (simp add: source_keys_of_source_data)
  then have 2: "map_get (coverage r) loc
      = Some (sum_list (map (\<lambda>n. length (source_flat w n)) NAMESPACES), locale_translated w ?sd loc)"
    by (simp add: c coverage_lookup [OF assms(3)])
  from r 1 2 show ?thesis by blast
qed

theorem unloadable_target_file_witness:
  "list_all (loads korean_world SOURCE_LOCALE) NAMESPACES
   \<and> distinct (map fst (readdir korean_world (LOCALES_DIR korean_world)))
   \<and> ''ko-KR'' \<in> set (discoverLocales korean_world) \<and> ''error'' \<in> set NAMESPACES
   \<and> loadJSON korean_world ''ko-KR'' ''error'' = None
   \<and> map_option (\<lambda>r. filter (\<lambda>i. issue_locale i = ''ko-KR'' \<and> issue_namespace i = ''error'') (issues r))
        (main korean_world)
       = Some [\<lparr>issue_type = Error, issue_locale = ''ko-KR'', issue_namespace = ''error'',
                issue_key = ''*'', issue_message = ''File missing or invalid JSON''\<rparr>]
   \<and> map_option (\<lambda>r. map_option fst (map_get (coverage r) ''ko-KR'')) (main korean_world) = Some (Some 5)"
proof -
  have loc: "''ko-KR'' \<in> set (discoverLocales korean_world)" by (simp add: korean_locales)
  have ns: "''error'' \<in> set NAMESPACES" by (simp add: NAMESPACES_def)
  have tot: "sum_list (map (\<lambda>n. length (source_flat korean_world n)) NAMESPACES) = 5"
    using korean_source_flat by (simp add: NAMESPACES_def)
  from unloadable_target_file [OF korean_source_loads korean_readdir loc ns korean_error_file]
  show ?thesis
    using korean_source_loads korean_readdir loc ns korean_error_file tot by auto
qed

subsection \<open>C7: a source key that the target lacks\<close>

lemma distinct_keys_pairs: "distinct (map fst xs) \<Longrightarrow> distinct xs"
  by (simp add: distinct_map)

text \<open>
  C7: for a target locale and a namespace whose file loads, and a source key that the
  flattened target does not have, the issues of the run for that locale, namespace and
  key are exactly one warning \<^verbatim>\<open>Missing translation\<close>; the loop body ends there for the
  key (one issue, no annotation, no increment of \<^verbatim>\<open>translated\<close>), and the key is not
  among the keys that \<^verbatim>\<open>translated\<close> counts for the namespace.
\<close>

theorem missing_translation:
  assumes "list_all (loads w SOURCE_LOCALE) NAMESPACES"
    and "distinct (map fst (readdir w (LOCALES_DIR w)))"
    and "loc \<in> set (discoverLocales w)" "ns \<in> set NAMESPACES"
    and "loadJSON w loc ns = Some data" "\<not> falsy data"
    and "(k, v) \<in> set (source_flat w ns)" "\<not> map_has (flatten data []) k"
  shows "\<exists>r. main w = Some r
       \<and> filter (\<lambda>i. issue_locale i = loc \<and> issue_namespace i = ns \<and> issue_key i = k) (issues r)
           = [\<lparr>issue_type = Warning, issue_locale = loc, issue_namespace = ns, issue_key = k,
               issue_message = ''Missing translation''\<rparr>]
       \<and> check_key w loc ns (flatten data []) (k, v)
           = ([\<lparr>issue_type = Warning, issue_locale = loc, issue_namespace = ns, issue_key = k,
                issue_message = ''Missing translation''\<rparr>], [], 0)
       \<and> (k, v) \<notin> set (present_keys (source_flat w ns) (flatten data []))
       \<and> ns_translated w (source_data w NAMESPACES []) loc ns
           = length (present_keys (source_flat w ns) (flatten data []))"
proof -
  let ?sd = "source_data w NAMESPACES []"
  let ?tk = "flatten data []"
  let ?sks = "source_flat w ns"
  let ?warn = "\<lparr>issue_type = Warning, issue_locale = loc, issue_namespace = ns, issue_key = k,
               issue_message = ''Missing translation''\<rparr>"
  from assms(3) have ne: "discoverLocales w \<noteq> []" by auto
  from main_run [OF assms(1) ne] obtain r where r: "main w = Some r"
    and i: "issues r = run_issues w"
    by auto
  have ck: "check_key w loc ns ?tk (k, v) = ([?warn], [], 0)"
    using assms(8) by (simp add: check_key_def map_has_iff)
  have dk: "distinct (map fst ?sks)"
    by (simp add: source_flat_def flatten_distinct split: option.splits)
  have ns: "ns_issues w ?sd loc ns
      = fst (extra_keys (isCI w) loc ns ?sks ?tk)
        @ concat (map (\<lambda>kv. fst (check_key w loc ns ?tk kv)) ?sks)"
    using assms(4,5,6)
    by (simp add: ns_issues_def source_keys_of_source_data validate_namespace_loaded check_keys_issues)
  have srck: "map_has ?sks k" using assms(7) by (force simp: map_has_def)
  have ex: "filter (\<lambda>i. issue_key i = k) (fst (extra_keys (isCI w) loc ns ?sks ?tk)) = []"
    using srck by (auto simp: filter_empty_conv dest: extra_keys_issues)
  have "filter (\<lambda>i. issue_key i = k) (concat (map (\<lambda>kv. fst (check_key w loc ns ?tk kv)) ?sks))
      = filter (\<lambda>i. issue_key i = k) (fst (check_key w loc ns ?tk (k, v)))"
  proof (rule filter_concat_one [OF distinct_keys_pairs [OF dk] assms(7)])
    fix x i assume x: "x \<in> set ?sks" "x \<noteq> (k, v)" and "i \<in> set (fst (check_key w loc ns ?tk x))"
    then have "issue_key i = fst x" by (auto dest: check_key_issues)
    moreover have "fst x \<noteq> k"
      using x dk assms(7) by (metis eq_key_imp_eq_value prod.collapse)
    ultimately show "\<not> issue_key i = k" by simp
  qed
  then have kf: "filter (\<lambda>i. issue_key i = k) (ns_issues w ?sd loc ns) = [?warn]"
    by (simp add: ns ex ck)
  have "filter (\<lambda>i. issue_locale i = loc \<and> issue_namespace i = ns \<and> issue_key i = k) (issues r)
      = filter (\<lambda>i. issue_key i = k)
          (filter (\<lambda>i. issue_locale i = loc \<and> issue_namespace i = ns) (issues r))"
    by (simp add: conj_commute conj_left_commute)
  also have "\<dots> = [?warn]"
    by (simp only: i run_issues_pair [OF assms(2,3,4)] kf)
  finally have 1: "filter (\<lambda>i. issue_locale i = loc \<and> issue_namespace i = ns \<and> issue_key i = k) (issues r)
      = [?warn]" .
  have 3: "(k, v) \<notin> set (present_keys ?sks ?tk)"
    using assms(8) by (simp add: present_keys_def)
  have 4: "ns_translated w ?sd loc ns = length (present_keys ?sks ?tk)"
    using assms(4,5,6)
    by (simp add: ns_translated_def source_keys_of_source_data validate_namespace_translated)
  from r 1 ck 3 4 show ?thesis by blast
qed

theorem missing_translation_witness:
  "list_all (loads korean_world SOURCE_LOCALE) NAMESPACES
   \<and> distinct (map fst (readdir korean_world (LOCALES_DIR korean_world)))
   \<and> ''ko-KR'' \<in> set (discoverLocales korean_world) \<and> ''pages'' \<in> set NAMESPACES
   \<and> loadJSON korean_world ''ko-KR'' ''pages'' = Some (JObj []) \<and> \<not> falsy (JObj [])
   \<and> (''title'', ''Hello'') \<in> set (source_flat korean_world ''pages'')
   \<and> \<not> map_has (flatten (JObj []) []) ''title''
   \<and> map_option (\<lambda>r. filter (\<lambda>i. issue_locale i = ''ko-KR'' \<and> issue_namespace i = ''pages''
                                   \<and> issue_key i = ''title'') (issues r)) (main korean_world)
       = Some [\<lparr>issue_type = Warning, issue_locale = ''ko-KR'', issue_namespace = ''pages'',
                issue_key = ''title'', issue_message = ''Missing translation''\<rparr>]"
proof -
  have loc: "''ko-KR'' \<in> set (discoverLocales korean_world)" by (simp add: korean_locales)
  have ns: "''pages'' \<in> set NAMESPACES" by (simp add: NAMESPACES_def)
  have f: "\<not> falsy (JObj [])" by simp
  have k: "(''title'', ''Hello'') \<in> set (source_flat korean_world ''pages'')"
    using korean_source_flat [OF ns] by simp
  have m: "\<not> map_has (flatten (JObj []) []) ''title''" by (simp add: map_has_def)
  from missing_translation [OF korean_source_loads korean_readdir loc ns korean_pages_file f k m]
  show ?thesis
    using korean_source_loads korean_readdir loc ns korean_pages_file f k m by auto
qed

subsection \<open>C8: the coverage percentage\<close>




text \<open>At an exact tie the product of doubles can fall below the half, and the result is
  the lower of the two nearest integers: 23 of 40 is 57.5 percent and reports 57.\<close>

lemma ilog2_unique:
  assumes "0 < q" "2 powi e \<le> q" "q < 2 powi (e + 1)"
  shows "ilog2 q = e"
proof (rule ccontr)
  assume ne: "ilog2 q \<noteq> e"
  note b = ilog2_bounds [OF assms(1)]
  show False
  proof (cases "ilog2 q < e")
    case True
    then have "ilog2 q + 1 \<le> e" by simp
    then have "(2::rat) powi (ilog2 q + 1) \<le> 2 powi e" by (intro power_int_increasing) simp_all
    with b(2) assms(2) show False by linarith
  next
    case False
    with ne have "e + 1 \<le> ilog2 q" by simp
    then have "(2::rat) powi (e + 1) \<le> 2 powi (ilog2 q)" by (intro power_int_increasing) simp_all
    with b(1) assms(3) show False by linarith
  qed
qed

lemma fl_at:
  assumes "0 < q" "2 powi e \<le> q" "q < 2 powi (e + 1)"
  shows "fl q = of_int (round_even (q / 2 powi (e - 52))) * 2 powi (e - 52)"
  using assms(1) ilog2_unique [OF assms] by (simp add: fl_def)

lemma round_even_below:
  assumes "of_int n \<le> x" "x < of_int n + 1 / 2"
  shows "round_even x = n"
proof -
  have "\<lfloor>x\<rfloor> = n" using assms by linarith
  then show ?thesis using assms by (simp add: round_even_def Let_def)
qed

lemma p1: "(2::rat) powi (-1) = 1 / 2" by (simp add: power_int_minus)
lemma p53: "(2::rat) powi (-53) = 1 / 2 ^ 53" by (simp add: power_int_minus field_simps)
lemma p47: "(2::rat) powi (-47) = 1 / 2 ^ 47" by (simp add: power_int_minus field_simps)

lemma fdiv_23_40: "fdiv 23 40 = 2589569785738035 / 4503599627370496"
proof -
  have "fl (23 / 40) = of_int (round_even (23 / 40 / 2 powi (-1 - 52))) * 2 powi (-1 - 52)"
    by (rule fl_at) (simp_all add: p1)
  moreover have "round_even (23 / 40 / 2 powi (-1 - 52)) = 5179139571476070"
    by (rule round_even_below) (simp_all add: p53)
  ultimately show ?thesis by (simp add: fdiv_def p53)
qed

lemma fmul_tie: "fmul (2589569785738035 / 4503599627370496) 100 = 8092405580431359 / 140737488355328"
proof -
  have "fl (2589569785738035 / 4503599627370496 * 100)
      = of_int (round_even (2589569785738035 / 4503599627370496 * 100 / 2 powi (5 - 52))) * 2 powi (5 - 52)"
    by (rule fl_at) simp_all
  moreover have "round_even (2589569785738035 / 4503599627370496 * 100 / 2 powi (5 - 52)) = 8092405580431359"
    by (rule round_even_below) (simp_all add: p47)
  ultimately show ?thesis by (simp add: fmul_def p47)
qed

lemma pct_tie_rounds_down: "pct_of 40 23 = 57"
proof -
  have "pct_of 40 23 = js_round (fmul (fdiv 23 40) 100)" by (simp add: pct_of_def)
  also have "\<dots> = js_round (8092405580431359 / 140737488355328)"
    by (simp only: fdiv_23_40 fmul_tie)
  also have "\<dots> = 57" unfolding js_round_def by (rule floor_unique) simp_all
  finally show ?thesis .
qed



subsection \<open>C9: the continuous-integration signal\<close>

lemma ci_loadJSON: "loadJSON (w\<lparr>github_actions := g\<rparr>) = loadJSON w"
  by (intro ext) (simp add: loadJSON_def LOCALES_DIR_def split: option.splits)

lemma ci_loads: "loads (w\<lparr>github_actions := g\<rparr>) = loads w"
  by (intro ext) (simp add: loads_def ci_loadJSON)

lemma ci_discoverLocales: "discoverLocales (w\<lparr>github_actions := g\<rparr>) = discoverLocales w"
  by (simp add: discoverLocales_def LOCALES_DIR_def)

lemma ci_source_flat: "source_flat (w\<lparr>github_actions := g\<rparr>) = source_flat w"
  by (intro ext) (simp add: source_flat_def ci_loadJSON)

lemma ci_source_data: "source_data (w\<lparr>github_actions := g\<rparr>) = source_data w"
  by (intro ext) (simp add: source_data_def ci_source_flat)

lemma ci_source_issue: "source_issue (w\<lparr>github_actions := g\<rparr>) = source_issue w"
  by (intro ext) (simp add: source_issue_def split: option.splits)

lemma ci_source_locale_issues:
  "source_locale_issues (w\<lparr>github_actions := g\<rparr>) = source_locale_issues w"
  by (intro ext) (simp add: source_locale_issues_def source_issues_def ci_source_issue ci_source_flat)

lemma ci_placeholder_issues:
  "fst (placeholder_issues ci loc ns key s t) = fst (placeholder_issues ci' loc ns key s t)"
  by (simp add: placeholder_issues_def Let_def)

lemma ci_check_key:
  "fst (check_key (w\<lparr>github_actions := g\<rparr>) loc ns tk kv) = fst (check_key w loc ns tk kv)"
  using ci_placeholder_issues [of "isCI (w\<lparr>github_actions := g\<rparr>)" loc ns "fst kv" _ _ "isCI w"]
  by (simp add: check_key_def split: option.splits prod.splits) (metis fst_conv)

lemma ci_extra_keys:
  "fst (extra_keys ci loc ns sks tk) = fst (extra_keys ci' loc ns sks tk)"
  by (simp add: extra_keys_def Let_def)

lemma ci_validate_namespace_issues:
  "fst (validate_namespace (w\<lparr>github_actions := g\<rparr>) sks loc ns) = fst (validate_namespace w sks loc ns)"
proof (cases "loads w loc ns")
  case False
  then have "\<not> loads (w\<lparr>github_actions := g\<rparr>) loc ns" by (simp add: ci_loads)
  with False show ?thesis by (simp add: validate_namespace_failed file_failure_def)
next
  case True
  then obtain data where d: "loadJSON w loc ns = Some data" "\<not> falsy data"
    by (auto simp: loads_def split: option.splits)
  then have d': "loadJSON (w\<lparr>github_actions := g\<rparr>) loc ns = Some data" by (simp add: ci_loadJSON)
  show ?thesis
    using ci_extra_keys [of "isCI (w\<lparr>github_actions := g\<rparr>)" loc ns sks "flatten data []" "isCI w"]
    by (simp add: validate_namespace_loaded [OF d] validate_namespace_loaded [OF d' d(2)]
          check_keys_issues ci_check_key)
qed

lemma ci_validate_namespace_translated:
  "snd (snd (validate_namespace (w\<lparr>github_actions := g\<rparr>) sks loc ns))
     = snd (snd (validate_namespace w sks loc ns))"
  by (simp add: validate_namespace_translated ci_loadJSON)

lemma ci_ns_issues: "ns_issues (w\<lparr>github_actions := g\<rparr>) = ns_issues w"
  by (intro ext) (simp add: ns_issues_def ci_validate_namespace_issues)

lemma ci_ns_translated: "ns_translated (w\<lparr>github_actions := g\<rparr>) = ns_translated w"
  by (intro ext) (simp add: ns_translated_def ci_validate_namespace_translated)

lemma ci_locale_issues: "locale_issues (w\<lparr>github_actions := g\<rparr>) = locale_issues w"
  by (intro ext) (simp add: locale_issues_def ci_ns_issues)

lemma ci_locale_translated: "locale_translated (w\<lparr>github_actions := g\<rparr>) = locale_translated w"
  by (intro ext) (simp add: locale_translated_def ci_ns_translated)

lemma ci_target_issues: "target_issues (w\<lparr>github_actions := g\<rparr>) = target_issues w"
  by (intro ext) (simp add: target_issues_def ci_locale_issues)

lemma ci_run_coverage: "run_coverage (w\<lparr>github_actions := g\<rparr>) = run_coverage w"
  by (intro ext) (simp add: run_coverage_def ci_locale_translated)

lemma ci_run_issues: "run_issues (w\<lparr>github_actions := g\<rparr>) = run_issues w"
  by (simp add: run_issues_def ci_source_locale_issues ci_source_data ci_target_issues ci_discoverLocales)

text \<open>
  C9: two runs in worlds that differ only in the environment variable \<^verbatim>\<open>GITHUB_ACTIONS\<close>
  end with the same exit code, the same list of issues and the same coverage map.
\<close>

theorem ci_signal_only_formats:
  "map_option exit_code (main (w\<lparr>github_actions := g\<rparr>)) = map_option exit_code (main w)
   \<and> map_option issues (main (w\<lparr>github_actions := g\<rparr>)) = map_option issues (main w)
   \<and> map_option coverage (main (w\<lparr>github_actions := g\<rparr>)) = map_option coverage (main w)"
proof (cases "list_all (loads w SOURCE_LOCALE) NAMESPACES")
  case False
  then have "\<not> list_all (loads (w\<lparr>github_actions := g\<rparr>) SOURCE_LOCALE) NAMESPACES"
    by (simp add: ci_loads)
  from main_fatal [OF this] main_fatal [OF False] show ?thesis
    by (simp add: fatal_outcome_def ci_loads ci_source_locale_issues)
next
  case True
  then have T: "list_all (loads (w\<lparr>github_actions := g\<rparr>) SOURCE_LOCALE) NAMESPACES"
    by (simp add: ci_loads)
  show ?thesis
  proof (cases "discoverLocales w = []")
    case e: True
    then have "discoverLocales (w\<lparr>github_actions := g\<rparr>) = []" by (simp add: ci_discoverLocales)
    from main_no_locales [OF T this] main_no_locales [OF True e] show ?thesis
      by (simp add: ci_source_locale_issues)
  next
    case False
    then have "discoverLocales (w\<lparr>github_actions := g\<rparr>) \<noteq> []" by (simp add: ci_discoverLocales)
    from main_run [OF T this] main_run [OF True False] show ?thesis
      by (auto simp: ci_run_issues ci_run_coverage ci_source_data ci_discoverLocales)
  qed
qed

text \<open>The signal does change what is written: the line on the standard error of the run in
  which no file can be read is colored without it and plain with it.\<close>

lemma ci_signal_changes_output:
  "map_option stderr (main empty_world)
     \<noteq> map_option stderr (main (empty_world\<lparr>github_actions := Some ''true''\<rparr>))"
proof -
  have "\<not> list_all (loads (empty_world\<lparr>github_actions := Some ''true''\<rparr>) SOURCE_LOCALE) NAMESPACES"
    using empty_world_fails by (simp add: ci_loads)
  from main_fatal [OF this] main_fatal [OF empty_world_fails] show ?thesis
    by (simp add: fatal_outcome_def isCI_def truthy_def red_def empty_world_def)
qed

subsection \<open>C10: a target file that holds a falsy value\<close>



end
